theory Spec2Isabelle
  imports Main
begin

section \<open>JavaScript values used by the job subsystem\<close>

text \<open>
  The job subsystem of the dynamic MCP server (the variant with logging and a job timeout)
  handles three kinds of JavaScript values: strings, Numbers that hold integers (the job
  counter, \<open>Date.now()\<close>, the timeout budget, exit codes) and the Numbers \<open>NaN\<close> and
  \<open>Infinity\<close> as results of \<open>Number.parseInt\<close>. A Number that holds an integer is
  modelled by that integer; \<open>Number.parseInt\<close> rounds what it reads to a double, as
  written out below. Printing a Number of \<open>10^21\<close> or more uses an exponent, which is
  not modelled. The texts that the server composes (identifiers, messages) are lists of
  8-bit characters. The value of the environment variable, which comes from outside, is
  a list of UTF-16 code units.
\<close>

datatype jsnum = NaN | Num int | PosInfinity | NegInfinity

type_synonym js_string = "nat list"

text \<open>The code units of a literal.\<close>

definition js :: "string \<Rightarrow> js_string" where
  "js s = map of_char s"

text \<open>Template literals \<open>`${n}`\<close> print an integer in decimal.\<close>

definition digit_char :: "nat \<Rightarrow> char" where
  "digit_char d = ''0123456789'' ! d"

function string_of_nat :: "nat \<Rightarrow> string" where
  "string_of_nat n =
     (if n < 10 then [digit_char n]
      else string_of_nat (n div 10) @ [digit_char (n mod 10)])"
  by pat_completeness auto
termination
  by (relation "measure (\<lambda>n. n)") auto

declare string_of_nat.simps [simp del]

definition string_of_int :: "int \<Rightarrow> string" where
  "string_of_int i =
     (if i < 0 then CHR ''-'' # string_of_nat (nat (- i)) else string_of_nat (nat i))"

text \<open>Reading a decimal numeral back, used to decode the counter of an identifier.\<close>

definition is_digit :: "char \<Rightarrow> bool" where
  "is_digit c = (48 \<le> (of_char c :: nat) \<and> (of_char c :: nat) \<le> 57)"

definition digit_val :: "char \<Rightarrow> nat" where
  "digit_val c = of_char c - 48"

definition nat_of_digits :: "string \<Rightarrow> nat" where
  "nat_of_digits Z = foldl (\<lambda>acc c. 10 * acc + digit_val c) 0 Z"

text \<open>
  The Number value of a natural number: the nearest double, ties to the even significand,
  and \<open>Infinity\<close> when that rounding reaches \<open>2^1024\<close>. \<open>double_exponent n\<close> is the
  number of low bits that a significand of 53 bits cannot hold. ECMAScript also allows an
  implementation of \<open>parseInt\<close> to replace the digits after the 20th by zeros before
  rounding; this option is not modelled.
\<close>

function double_exponent :: "nat \<Rightarrow> nat" where
  "double_exponent n = (if n < 2 ^ 53 then 0 else Suc (double_exponent (n div 2)))"
  by pat_completeness auto
termination
  by (relation "measure (\<lambda>n. n)") auto

declare double_exponent.simps [simp del]

definition to_double :: "nat \<Rightarrow> jsnum" where
  "to_double n =
     (let e = double_exponent n;
          q = n div 2 ^ e;
          r = n mod 2 ^ e;
          q' = (if 2 ^ e < 2 * r \<or> (2 * r = 2 ^ e \<and> odd q) then q + 1 else q);
          v = q' * 2 ^ e
      in if 2 ^ 1024 \<le> v then PosInfinity else Num (int v))"

definition signed_double :: "int \<Rightarrow> nat \<Rightarrow> jsnum" where
  "signed_double sign mathInt =
     (case to_double mathInt of
        Num d \<Rightarrow> Num (sign * d)
      | PosInfinity \<Rightarrow> if sign < 0 then NegInfinity else PosInfinity
      | other \<Rightarrow> other)"

text \<open>
  \<open>Number.parseInt(string, 10)\<close> as ECMAScript defines it: leading white space is
  skipped, one sign is read, then the longest prefix of decimal digits is the value,
  whatever follows; with no digit the result is \<open>NaN\<close>. White space is the
  \<open>WhiteSpace\<close> and \<open>LineTerminator\<close> of ECMAScript: tab, line feed, vertical tab, form
  feed, carriage return, space, U+00A0, U+1680, U+2000 to U+200A, U+2028, U+2029, U+202F,
  U+205F, U+3000 and U+FEFF. The code units 43, 45 and 48 to 57 are \<open>+\<close>, \<open>-\<close> and
  the digits.
\<close>

definition is_ws :: "nat \<Rightarrow> bool" where
  "is_ws u =
     (u \<in> {9, 10, 11, 12, 13, 32, 160, 5760, 8232, 8233, 8239, 8287, 12288, 65279}
      \<or> (8192 \<le> u \<and> u \<le> 8202))"

definition is_decimal_digit :: "nat \<Rightarrow> bool" where
  "is_decimal_digit u = (48 \<le> u \<and> u \<le> 57)"

definition units_value :: "js_string \<Rightarrow> nat" where
  "units_value Z = foldl (\<lambda>acc u. 10 * acc + (u - 48)) 0 Z"

definition parseInt10 :: "js_string \<Rightarrow> jsnum" where
  "parseInt10 inputString =
     (let S = dropWhile is_ws inputString;
          sign = (if S \<noteq> [] \<and> hd S = 45 then - 1 else 1);
          S' = (if S \<noteq> [] \<and> (hd S = 43 \<or> hd S = 45) then tl S else S);
          Z = takeWhile is_decimal_digit S'
      in if Z = [] then NaN else signed_double sign (units_value Z))"

text \<open>The operator \<open>a ?? b\<close>: \<open>b\<close> when \<open>a\<close> is \<open>undefined\<close> or \<open>null\<close>.\<close>

definition nullish :: "'a option \<Rightarrow> 'a \<Rightarrow> 'a" where
  "nullish a b = (case a of None \<Rightarrow> b | Some v \<Rightarrow> v)"

section \<open>The timeout budget\<close>

definition DEFAULT_JOB_TIMEOUT_MS :: int where
  "DEFAULT_JOB_TIMEOUT_MS = 20 * 60 * 1000"

text \<open>
  \<open>resolveJobTimeoutMs\<close> reads \<open>process.env.DYNAMIC_MCP_JOB_TIMEOUT_MS\<close>; the argument is
  the value of that variable, \<open>None\<close> when it is not set. \<open>Number.isFinite\<close> is false
  of \<open>NaN\<close> and of both infinities.
\<close>

definition resolveJobTimeoutMs :: "js_string option \<Rightarrow> int" where
  "resolveJobTimeoutMs envValue =
     (case parseInt10 (nullish envValue []) of
        Num parsed \<Rightarrow> if parsed > 0 then parsed else DEFAULT_JOB_TIMEOUT_MS
      | NaN \<Rightarrow> DEFAULT_JOB_TIMEOUT_MS
      | PosInfinity \<Rightarrow> DEFAULT_JOB_TIMEOUT_MS
      | NegInfinity \<Rightarrow> DEFAULT_JOB_TIMEOUT_MS)"

section \<open>Data model\<close>

datatype job_status = Running | Completed | Failed

record task_result =
  exitCode :: int
  stdout :: string
  stderr :: string

text \<open>
  A job object. The fields \<open>completedAt\<close> and \<open>timedOut\<close> are absent from the object that
  \<open>startTaskAsync\<close> stores, which is \<open>None\<close> here; \<open>result\<close> is \<open>null\<close> there.
\<close>

record job =
  status :: job_status
  toolName :: string
  startedAt :: string
  result :: "task_result option"
  timeoutMs :: int
  completedAt :: "string option"
  timedOut :: "bool option"

record cli_config =
  command :: string
  baseArgs :: "string list"

definition CLI_CONFIG :: "string \<rightharpoonup> cli_config" where
  "CLI_CONFIG =
     [''claude'' \<mapsto> \<lparr>command = ''claude'',
                     baseArgs = [''--dangerously-skip-permissions'', ''-p'']\<rparr>,
      ''codex'' \<mapsto> \<lparr>command = ''codex'',
                    baseArgs = [''--dangerously-bypass-approvals-and-sandbox'', ''--search'',
                                ''exec'', ''--dangerously-bypass-approvals-and-sandbox'',
                                ''--skip-git-repo-check'']\<rparr>,
      ''gemini'' \<mapsto> \<lparr>command = ''gemini'', baseArgs = [''-y'', ''-p'']\<rparr>]"

text \<open>
  The configuration as \<open>ConfigSchemas\<close> validates it: \<open>model\<close> is one of three names
  (\<open>z.enum\<close>), a tool's \<open>async\<close> is an optional boolean.
\<close>

datatype model_enum = claude | codex | gemini

fun model_key :: "model_enum \<Rightarrow> string" where
  "model_key claude = ''claude''"
| "model_key codex = ''codex''"
| "model_key gemini = ''gemini''"

record tool =
  name :: string
  description :: string
  async :: "bool option"

record config =
  model :: model_enum
  modelId :: "string option"

text \<open>
  What one call reads from the process: the environment variable, \<open>process.cwd()\<close>,
  \<open>Date.now()\<close> and \<open>new Date().toISOString()\<close>.
\<close>

record ambient =
  DYNAMIC_MCP_JOB_TIMEOUT_MS :: "js_string option"
  process_cwd :: string
  Date_now :: int
  Date_toISOString :: string

text \<open>
  The promise that \<open>execa\<close> returns either resolves with an object whose \<open>exitCode\<close>,
  \<open>stdout\<close> and \<open>stderr\<close> may be missing, or rejects with an error that has a message.
  For the synchronous path the external world is a function from the spawn request
  (command, arguments, working directory) to that outcome.
\<close>

datatype exec_outcome =
    Resolved "int option" "string option" "string option"
  | Rejected string

type_synonym execa = "string \<Rightarrow> string list \<Rightarrow> string \<Rightarrow> exec_outcome"

datatype js_error = TypeError

datatype signal = SIGTERM | SIGKILL

datatype log_level = info | warn

text \<open>
  A logger is its \<open>shouldLog\<close> test on level and category; a line that passes is written.
  Of a line the level, the category and the message are kept.
\<close>

type_synonym logger = "log_level \<Rightarrow> string \<Rightarrow> bool"

text \<open>
  The values that the callbacks created by one call of \<open>startTaskAsync\<close> capture, and
  whether the timer of that call is pending.
\<close>

record closure =
  cl_toolName :: string
  cl_timeoutMs :: int
  cl_logger :: "logger option"
  cl_timerArmed :: bool

record server_state =
  jobs :: "string \<rightharpoonup> job"
  jobIdCounter :: nat
  closures :: "string \<rightharpoonup> closure"
  spawned :: "(string \<times> string \<times> string list \<times> string) list"
  signals :: "(string \<times> signal) list"
  killTimers :: "string list"
  logLines :: "(log_level \<times> string \<times> string) list"

definition initial_state :: server_state where
  "initial_state =
     \<lparr>jobs = Map.empty, jobIdCounter = 0, closures = Map.empty, spawned = [],
      signals = [], killTimers = [], logLines = []\<rparr>"

section \<open>Operations\<close>

definition logger_log ::
  "logger option \<Rightarrow> log_level \<Rightarrow> string \<Rightarrow> string \<Rightarrow> server_state \<Rightarrow> server_state" where
  "logger_log lg level category message s =
     (case lg of
        None \<Rightarrow> s
      | Some shouldLog \<Rightarrow>
          if shouldLog level category
          then s\<lparr>logLines := logLines s @ [(level, category, message)]\<rparr>
          else s)"

definition generateJobId :: "ambient \<Rightarrow> server_state \<Rightarrow> string \<times> server_state" where
  "generateJobId amb s =
     (let c = Suc (jobIdCounter s)
      in (''job_'' @ string_of_int (Date_now amb) @ ''_'' @ string_of_nat c,
          s\<lparr>jobIdCounter := c\<rparr>))"

definition resolveToolAsyncFlag :: "tool \<Rightarrow> bool \<Rightarrow> bool" where
  "resolveToolAsyncFlag t serverAsync =
     (case async t of Some b \<Rightarrow> b | None \<Rightarrow> serverAsync)"

text \<open>
  The argument list and working directory of the spawn request, as both \<open>executeTask\<close>
  and \<open>startTaskAsync\<close> build them: an empty \<open>modelId\<close> or \<open>cwd\<close> is falsy.
\<close>

definition spawnArgs :: "cli_config \<Rightarrow> string option \<Rightarrow> string \<Rightarrow> string list" where
  "spawnArgs cliConfig mId task =
     (let args = baseArgs cliConfig @ [task]
      in case mId of
           None \<Rightarrow> args
         | Some m \<Rightarrow> if m = [] then args else [''--model'', m] @ args)"

definition spawnCwd :: "string option \<Rightarrow> ambient \<Rightarrow> string" where
  "spawnCwd cwd amb =
     (case cwd of
        None \<Rightarrow> process_cwd amb
      | Some d \<Rightarrow> if d = [] then process_cwd amb else d)"

text \<open>
  \<open>executeTask\<close>: the look-up in \<open>CLI_CONFIG\<close> and the spread of \<open>baseArgs\<close> come before
  the \<open>try\<close>, so a model that is no key of \<open>CLI_CONFIG\<close> raises a \<open>TypeError\<close>.
\<close>

definition executeTask ::
  "execa \<Rightarrow> ambient \<Rightarrow> string \<Rightarrow> string option \<Rightarrow> string \<Rightarrow> string option
     \<Rightarrow> js_error + task_result" where
  "executeTask exec amb mdl mId task cwd =
     (case CLI_CONFIG mdl of
        None \<Rightarrow> Inl TypeError
      | Some cliConfig \<Rightarrow>
          (case exec (command cliConfig) (spawnArgs cliConfig mId task) (spawnCwd cwd amb) of
             Resolved ec out err \<Rightarrow>
               Inr \<lparr>exitCode = nullish ec (- 1), stdout = nullish out [],
                    stderr = nullish err []\<rparr>
           | Rejected message \<Rightarrow>
               Inr \<lparr>exitCode = - 1, stdout = [], stderr = message\<rparr>))"

text \<open>
  \<open>startTaskAsync\<close> up to its return. The job is stored before the look-up in
  \<open>CLI_CONFIG\<close>, so the entry stays when that look-up raises.
\<close>

definition startTaskAsync ::
  "ambient \<Rightarrow> string \<Rightarrow> string option \<Rightarrow> string \<Rightarrow> string option \<Rightarrow> string
     \<Rightarrow> logger option \<Rightarrow> server_state \<Rightarrow> (js_error + string) \<times> server_state" where
  "startTaskAsync amb mdl mId task cwd tName lg s0 =
     (let (jobId, s1) = generateJobId amb s0;
          tMs = resolveJobTimeoutMs (DYNAMIC_MCP_JOB_TIMEOUT_MS amb);
          s2 = s1\<lparr>jobs := (jobs s1)(jobId \<mapsto>
                 \<lparr>status = Running, toolName = tName,
                  startedAt = Date_toISOString amb, result = None, timeoutMs = tMs,
                  completedAt = None, timedOut = None\<rparr>)\<rparr>;
          s3 = logger_log lg info ''steps'' ''job_started'' s2
      in case CLI_CONFIG mdl of
           None \<Rightarrow> (Inl TypeError, s3)
         | Some cliConfig \<Rightarrow>
             (let s4 = s3\<lparr>spawned := spawned s3 @
                         [(jobId, command cliConfig, spawnArgs cliConfig mId task,
                           spawnCwd cwd amb)]\<rparr>;
                  s5 = s4\<lparr>closures := (closures s4)(jobId \<mapsto>
                         \<lparr>cl_toolName = tName, cl_timeoutMs = tMs, cl_logger = lg,
                          cl_timerArmed = (tMs > 0)\<rparr>)\<rparr>
              in (Inr jobId, s5)))"

text \<open>
  The callback given to \<open>setTimeout\<close>; \<open>now\<close> is the time stamp it reads. The promise
  that \<open>execa\<close> returns has a \<open>kill\<close> method, so the signal is sent and the timer of
  the forced kill is set.
\<close>

definition timeoutCallback ::
  "string \<Rightarrow> string \<Rightarrow> int \<Rightarrow> logger option \<Rightarrow> server_state \<Rightarrow> server_state" where
  "timeoutCallback now jobId tMs lg s =
     (case jobs s jobId of
        None \<Rightarrow> s
      | Some j \<Rightarrow>
          if status j \<noteq> Running then s
          else
            (let s1 = s\<lparr>jobs := (jobs s)(jobId \<mapsto>
                        j\<lparr>status := Failed, completedAt := Some now,
                          result := Some \<lparr>exitCode = - 1, stdout = [],
                            stderr = ''Timed out after '' @ string_of_int tMs @ ''ms''\<rparr>,
                          timedOut := Some True\<rparr>)\<rparr>;
                 s2 = logger_log lg warn ''steps'' ''job_timed_out'' s1
             in s2\<lparr>signals := signals s2 @ [(jobId, SIGTERM)],
                   killTimers := killTimers s2 @ [jobId]\<rparr>))"

definition clearTimeout :: "string \<Rightarrow> server_state \<Rightarrow> server_state" where
  "clearTimeout jobId s =
     (case closures s jobId of
        None \<Rightarrow> s
      | Some cl \<Rightarrow> s\<lparr>closures := (closures s)(jobId \<mapsto> cl\<lparr>cl_timerArmed := False\<rparr>)\<rparr>)"

definition finalizeJob ::
  "string \<Rightarrow> string \<Rightarrow> logger option \<Rightarrow> job_status \<Rightarrow> task_result \<Rightarrow> server_state
     \<Rightarrow> server_state" where
  "finalizeJob now jobId lg st res s =
     (case jobs s jobId of
        None \<Rightarrow> s
      | Some j \<Rightarrow>
          if status j \<noteq> Running then s
          else
            (let s1 = clearTimeout jobId s;
                 s2 = s1\<lparr>jobs := (jobs s1)(jobId \<mapsto>
                        j\<lparr>status := st, completedAt := Some now, result := Some res\<rparr>)\<rparr>
             in logger_log lg (if st = Completed then info else warn)
                  ''steps'' ''job_finished'' s2))"

text \<open>The two callbacks on the promise of the subprocess: \<open>then\<close> and \<open>catch\<close>.\<close>

definition subprocessSettled ::
  "string \<Rightarrow> string \<Rightarrow> logger option \<Rightarrow> exec_outcome \<Rightarrow> server_state \<Rightarrow> server_state" where
  "subprocessSettled now jobId lg outcome s =
     (case outcome of
        Resolved ec out err \<Rightarrow>
          finalizeJob now jobId lg (if nullish ec (- 1) = 0 then Completed else Failed)
            \<lparr>exitCode = nullish ec (- 1), stdout = nullish out [], stderr = nullish err []\<rparr> s
      | Rejected message \<Rightarrow>
          finalizeJob now jobId lg Failed
            \<lparr>exitCode = - 1, stdout = [], stderr = message\<rparr> s)"

section \<open>Tool handlers\<close>

text \<open>
  The response of a tool handler: the text of its one content item, the structured
  content and the error mark. The structured content has one of four shapes.
\<close>

datatype structured =
    TaskResultContent task_result
  | JobHandleContent string job_status string
  | JobSnapshotContent string job_status string string "string option" "task_result option"
  | JobNotFoundContent string job_status string

record call_result =
  content :: string
  structuredContent :: structured
  isError :: bool

fun status_string :: "job_status \<Rightarrow> string" where
  "status_string Running = ''running''"
| "status_string Completed = ''completed''"
| "status_string Failed = ''failed''"

text \<open>
  The handlers that \<open>registerConfiguredTools\<close> registers for a tool. The composed prompt
  \<open>fullTask\<close> and the \<open>cwd\<close> parameter are taken as given: the prompt builder is not
  part of the job subsystem.
\<close>

definition asyncToolHandler ::
  "config \<Rightarrow> tool \<Rightarrow> logger option \<Rightarrow> ambient \<Rightarrow> string \<Rightarrow> string option \<Rightarrow> server_state
     \<Rightarrow> (js_error + call_result) \<times> server_state" where
  "asyncToolHandler cfg t toolLogger amb fullTask cwd s0 =
     (let s1 = logger_log toolLogger info ''requests'' ''tool_request'' s0;
          (r, s2) = startTaskAsync amb (model_key (model cfg)) (modelId cfg) fullTask cwd
                      (name t) toolLogger s1
      in case r of
           Inl e \<Rightarrow> (Inl e, s2)
         | Inr jobId \<Rightarrow>
             (Inr \<lparr>content = ''Job started: '' @ jobId @ [CHR 0x0A] @ ''Status: running''
                      @ [CHR 0x0A, CHR 0x0A] @ ''Use '' @ [CHR 0x27] @ ''check-job-status''
                      @ [CHR 0x27] @ '' tool with this jobId to poll for completion.'',
                   structuredContent = JobHandleContent jobId Running
                      (''Job started. Use '' @ [CHR 0x27] @ ''check-job-status'' @ [CHR 0x27]
                       @ '' with jobId '' @ [CHR 0x27] @ jobId @ [CHR 0x27]
                       @ '' to check progress.''),
                   isError = False\<rparr>,
              logger_log toolLogger info ''responses'' ''tool_response'' s2))"

definition syncToolHandler ::
  "execa \<Rightarrow> config \<Rightarrow> tool \<Rightarrow> logger option \<Rightarrow> ambient \<Rightarrow> string \<Rightarrow> string option
     \<Rightarrow> server_state \<Rightarrow> (js_error + call_result) \<times> server_state" where
  "syncToolHandler exec cfg t toolLogger amb fullTask cwd s0 =
     (let s1 = logger_log toolLogger info ''requests'' ''tool_request'' s0
      in case executeTask exec amb (model_key (model cfg)) (modelId cfg) fullTask cwd of
           Inl e \<Rightarrow> (Inl e, s1)
         | Inr res \<Rightarrow>
             (Inr \<lparr>content = ''stdout: '' @ stdout res @ [CHR 0x0A] @ ''stderr: '' @ stderr res,
                   structuredContent = TaskResultContent res,
                   isError = (exitCode res \<noteq> 0)\<rparr>,
              logger_log toolLogger info ''responses'' ''tool_response'' s1))"

definition registeredHandler ::
  "execa \<Rightarrow> config \<Rightarrow> bool \<Rightarrow> tool \<Rightarrow> logger option \<Rightarrow> ambient \<Rightarrow> string \<Rightarrow> string option
     \<Rightarrow> server_state \<Rightarrow> (js_error + call_result) \<times> server_state" where
  "registeredHandler exec cfg serverAsync t toolLogger amb fullTask cwd s =
     (let toolAsync = resolveToolAsyncFlag t serverAsync
      in if toolAsync then asyncToolHandler cfg t toolLogger amb fullTask cwd s
         else syncToolHandler exec cfg t toolLogger amb fullTask cwd s)"

text \<open>The handler of \<open>check-job-status\<close>.\<close>

definition checkJobStatus ::
  "logger option \<Rightarrow> string \<Rightarrow> server_state \<Rightarrow> call_result \<times> server_state" where
  "checkJobStatus lg jobId s0 =
     (let s1 = logger_log lg info ''requests'' ''tool_request'' s0
      in case jobs s1 jobId of
           None \<Rightarrow>
             (\<lparr>content = ''Error: Job not found: '' @ jobId,
               structuredContent = JobNotFoundContent jobId Failed (''Job not found: '' @ jobId),
               isError = True\<rparr>, s1)
         | Some j \<Rightarrow>
             (\<lparr>content =
                 (if status j = Running
                  then ''Job '' @ jobId @ '' is still running (started: '' @ startedAt j @ '').''
                       @ [CHR 0x0A] @ ''Poll again to check for completion.''
                  else ''Job '' @ jobId @ '' '' @ status_string (status j) @ '' (completed: ''
                       @ nullish (completedAt j) ''undefined'' @ '')'' @ [CHR 0x0A, CHR 0x0A]
                       @ ''stdout: '' @ nullish (map_option stdout (result j)) []
                       @ [CHR 0x0A] @ ''stderr: '' @ nullish (map_option stderr (result j)) []),
               structuredContent = JobSnapshotContent jobId (status j) (toolName j)
                 (startedAt j) (completedAt j) (result j),
               isError = (status j = Failed)\<rparr>,
              logger_log lg info ''responses'' ''tool_response'' s1))"

section \<open>Runs of the server\<close>

text \<open>
  The server runs on one thread: between two suspensions one of the following happens.
  A tool is called, the status tool is called, a pending timeout timer fires, the promise
  of a subprocess settles, or the timer of the forced kill fires. A timer fires only while
  it is pending, and the callbacks of a job exist only once \<open>startTaskAsync\<close> has
  created them. A synchronous tool call is one event: while it awaits the subprocess it
  reads and writes nothing of this state, so what happens in between commutes with it up
  to the order of the log lines.
\<close>

datatype event =
    EvToolCall execa config bool tool "logger option" ambient string "string option"
  | EvStatusQuery "logger option" string
  | EvTimeout string string
  | EvSettled string exec_outcome string
  | EvKill string

fun step :: "server_state \<Rightarrow> event \<Rightarrow> server_state" where
  "step s (EvToolCall exec cfg serverAsync t lg amb fullTask cwd) =
     snd (registeredHandler exec cfg serverAsync t lg amb fullTask cwd s)"
| "step s (EvStatusQuery lg jobId) = snd (checkJobStatus lg jobId s)"
| "step s (EvTimeout jobId now) =
     (case closures s jobId of
        None \<Rightarrow> s
      | Some cl \<Rightarrow>
          if cl_timerArmed cl
          then timeoutCallback now jobId (cl_timeoutMs cl) (cl_logger cl)
                 (s\<lparr>closures := (closures s)(jobId \<mapsto> cl\<lparr>cl_timerArmed := False\<rparr>)\<rparr>)
          else s)"
| "step s (EvSettled jobId outcome now) =
     (case closures s jobId of
        None \<Rightarrow> s
      | Some cl \<Rightarrow> subprocessSettled now jobId (cl_logger cl) outcome s)"
| "step s (EvKill jobId) =
     (if jobId \<in> set (killTimers s)
      then s\<lparr>signals := signals s @ [(jobId, SIGKILL)],
             killTimers := remove1 jobId (killTimers s)\<rparr>
      else s)"

definition run :: "server_state \<Rightarrow> event list \<Rightarrow> server_state" where
  "run s es = foldl step s es"

text \<open>The job identifiers handed to callers during a run, in order.\<close>

fun handed_jobId :: "server_state \<Rightarrow> event \<Rightarrow> string list" where
  "handed_jobId s (EvToolCall exec cfg serverAsync t lg amb fullTask cwd) =
     (case fst (registeredHandler exec cfg serverAsync t lg amb fullTask cwd s) of
        Inr r \<Rightarrow> (case structuredContent r of
                    JobHandleContent jobId st msg \<Rightarrow> [jobId]
                  | _ \<Rightarrow> [])
      | Inl e \<Rightarrow> [])"
| "handed_jobId s _ = []"

fun created_ids :: "server_state \<Rightarrow> event list \<Rightarrow> string list" where
  "created_ids s [] = []"
| "created_ids s (e # es) = handed_jobId s e @ created_ids (step s e) es"

text \<open>The counter that an identifier ends with.\<close>

definition id_counter :: "string \<Rightarrow> nat" where
  "id_counter jobId = nat_of_digits (rev (takeWhile (\<lambda>c. c \<noteq> CHR ''_'') (rev jobId)))"

text \<open>Invariants of the reachable states.\<close>

definition ids_bounded :: "server_state \<Rightarrow> bool" where
  "ids_bounded s = (\<forall>jobId j. jobs s jobId = Some j \<longrightarrow> id_counter jobId \<le> jobIdCounter s)"

definition result_inv :: "server_state \<Rightarrow> bool" where
  "result_inv s =
     (\<forall>jobId j. jobs s jobId = Some j \<longrightarrow> (result j = None) = (status j = Running))"

definition closure_inv :: "server_state \<Rightarrow> bool" where
  "closure_inv s =
     (\<forall>jobId cl. closures s jobId = Some cl \<longrightarrow>
        (\<exists>j. jobs s jobId = Some j \<and> timeoutMs j = cl_timeoutMs cl))"

section \<open>Notions used in the statements\<close>

text \<open>
  The identifier and the job object that one call of \<open>startTaskAsync\<close> stores, the status
  and the result that the callbacks of the subprocess pass to \<open>finalizeJob\<close>, and the
  conjunction of the invariants.
\<close>

definition new_id :: "ambient \<Rightarrow> server_state \<Rightarrow> string" where
  "new_id amb s = fst (generateJobId amb s)"

definition new_job :: "ambient \<Rightarrow> string \<Rightarrow> job" where
  "new_job amb tName =
     \<lparr>status = Running, toolName = tName, startedAt = Date_toISOString amb, result = None,
      timeoutMs = resolveJobTimeoutMs (DYNAMIC_MCP_JOB_TIMEOUT_MS amb),
      completedAt = None, timedOut = None\<rparr>"

definition settled_status :: "exec_outcome \<Rightarrow> job_status" where
  "settled_status outcome =
     (case outcome of
        Resolved ec out err \<Rightarrow> if nullish ec (- 1) = 0 then Completed else Failed
      | Rejected message \<Rightarrow> Failed)"

definition settled_result :: "exec_outcome \<Rightarrow> task_result" where
  "settled_result outcome =
     (case outcome of
        Resolved ec out err \<Rightarrow>
          \<lparr>exitCode = nullish ec (- 1), stdout = nullish out [], stderr = nullish err []\<rparr>
      | Rejected message \<Rightarrow> \<lparr>exitCode = - 1, stdout = [], stderr = message\<rparr>)"

definition reachable_inv :: "server_state \<Rightarrow> bool" where
  "reachable_inv s = (ids_bounded s \<and> result_inv s \<and> closure_inv s)"

text \<open>
  A small run used to exercise the theorems: an asynchronous tool is called at time 5 with
  the timeout variable set to \<open>0\<close>, which creates the job \<open>job_5_1\<close>.
\<close>

definition demo_amb :: ambient where
  "demo_amb = \<lparr>DYNAMIC_MCP_JOB_TIMEOUT_MS = Some (js ''0''), process_cwd = ''/srv'',
               Date_now = 5, Date_toISOString = ''T0''\<rparr>"

definition demo_tool :: tool where
  "demo_tool = \<lparr>name = ''review'', description = ''d'', async = Some True\<rparr>"

definition demo_cfg :: config where
  "demo_cfg = \<lparr>model = gemini, modelId = None\<rparr>"

definition demo_exec :: execa where
  "demo_exec = (\<lambda>c a d. Resolved (Some 0) (Some ''out'') None)"

definition demo_call :: event where
  "demo_call = EvToolCall demo_exec demo_cfg False demo_tool None demo_amb ''task'' None"

definition demo_running :: job where
  "demo_running =
     \<lparr>status = Running, toolName = ''review'', startedAt = ''T0'', result = None,
      timeoutMs = 1200000, completedAt = None, timedOut = None\<rparr>"

definition demo_timed_out :: job where
  "demo_timed_out =
     \<lparr>status = Failed, toolName = ''review'', startedAt = ''T0'',
      result = Some \<lparr>exitCode = - 1, stdout = [], stderr = ''Timed out after 1200000ms''\<rparr>,
      timeoutMs = 1200000, completedAt = Some ''T1'', timedOut = Some True\<rparr>"

definition demo_sync_tool :: tool where
  "demo_sync_tool = \<lparr>name = ''ask'', description = ''d'', async = None\<rparr>"

definition demo_throw :: execa where
  "demo_throw = (\<lambda>c a d. if c = ''claude'' then Rejected ''spawn claude ENOENT''
                          else Resolved None None (Some ''killed''))"

definition demo_sync_call :: event where
  "demo_sync_call =
     EvToolCall demo_exec demo_cfg False demo_sync_tool None demo_amb ''task'' None"

section \<open>Decimal numerals\<close>

lemma digit_char_props:
  assumes "d < 10"
  shows "is_digit (digit_char d)" and "digit_val (digit_char d) = d"
proof -
  from assms have "d \<in> {0, 1, 2, 3, 4, 5, 6, 7, 8, 9}" by auto
  then show "is_digit (digit_char d)" and "digit_val (digit_char d) = d"
    by (auto simp add: is_digit_def digit_val_def digit_char_def)
qed

lemma string_of_nat_digits: "c \<in> set (string_of_nat n) \<Longrightarrow> is_digit c"
proof (induction n arbitrary: c rule: string_of_nat.induct)
  case (1 n)
  show ?case
  proof (cases "n < 10")
    case True
    with 1(2) show ?thesis by (simp add: string_of_nat.simps [of n] digit_char_props)
  next
    case False
    with 1 show ?thesis by (auto simp add: string_of_nat.simps [of n] digit_char_props)
  qed
qed

lemma string_of_nat_nonempty: "string_of_nat n \<noteq> []"
  by (simp add: string_of_nat.simps [of n])

lemma nat_of_digits_string_of_nat: "nat_of_digits (string_of_nat n) = n"
proof (induction n rule: string_of_nat.induct)
  case (1 n)
  show ?case
  proof (cases "n < 10")
    case True
    then show ?thesis
      by (simp add: string_of_nat.simps [of n] nat_of_digits_def digit_char_props)
  next
    case False
    with 1 have "nat_of_digits (string_of_nat (n div 10)) = n div 10" by simp
    with False show ?thesis
      by (simp add: string_of_nat.simps [of n] nat_of_digits_def digit_char_props)
  qed
qed

lemma is_digit_not_underscore: "is_digit c \<Longrightarrow> c \<noteq> CHR ''_''"
  by (auto simp add: is_digit_def)

lemmas parse_eval =
  parseInt10_def is_ws_def is_decimal_digit_def units_value_def Let_def js_def
  signed_double_def to_double_def double_exponent.simps

lemmas print_eval = string_of_int_def string_of_nat.simps digit_char_def

section \<open>The Number that \<open>Number.parseInt\<close> reads\<close>

lemma double_exponent_small: "n < 2 ^ 53 \<Longrightarrow> double_exponent n = 0"
  by (simp add: double_exponent.simps [of n])

lemma double_exponent_div: "n div 2 ^ double_exponent n < 2 ^ 53"
proof (induction n rule: double_exponent.induct)
  case (1 n)
  show ?case
  proof (cases "n < 2 ^ 53")
    case True
    then show ?thesis by (simp add: double_exponent.simps [of n])
  next
    case False
    with 1 have "n div 2 div 2 ^ double_exponent (n div 2) < 2 ^ 53" by simp
    with False show ?thesis
      by (simp add: double_exponent.simps [of n] div_mult2_eq)
  qed
qed

lemma double_exponent_significand:
  "2 ^ 53 \<le> n \<Longrightarrow> 2 ^ 52 \<le> n div 2 ^ double_exponent n"
proof (induction n rule: double_exponent.induct)
  case (1 n)
  from 1(2) have nlt: "\<not> n < 2 ^ 53" by simp
  show ?case
  proof (cases "n div 2 < 2 ^ 53")
    case True
    then have "double_exponent n = Suc 0"
      using nlt by (simp add: double_exponent.simps [of n] double_exponent_small)
    moreover have "2 ^ 52 \<le> n div 2" using 1(2) by simp
    ultimately show ?thesis by simp
  next
    case False
    then have "2 ^ 52 \<le> n div 2 div 2 ^ double_exponent (n div 2)"
      using 1(1) nlt by simp
    with nlt show ?thesis
      by (simp add: double_exponent.simps [of n] div_mult2_eq)
  qed
qed

lemma to_double_exact: "n \<le> 2 ^ 53 \<Longrightarrow> to_double n = Num (int n)"
proof (cases "n < 2 ^ 53")
  case True
  then show ?thesis by (simp add: to_double_def double_exponent_small Let_def)
next
  case False
  assume "n \<le> 2 ^ 53"
  with False have "n = 2 ^ 53" by simp
  then show ?thesis by (simp add: to_double_def double_exponent.simps Let_def)
qed

lemma to_double_overflow:
  assumes "2 ^ 1024 \<le> n"
  shows "to_double n = PosInfinity"
proof -
  let ?e = "double_exponent n"
  let ?q = "n div 2 ^ ?e"
  have "(2::nat) ^ 53 \<le> 2 ^ 1024" by (rule power_increasing) simp_all
  then have big: "(2::nat) ^ 53 \<le> n" using assms by (rule le_trans)
  have q: "2 ^ 52 \<le> ?q" using double_exponent_significand [OF big] .
  have pos: "0 < (2::nat) ^ ?e" by simp
  have "?q < 2 ^ 53" by (rule double_exponent_div)
  then have "n < 2 ^ 53 * 2 ^ ?e"
    using div_less_iff_less_mult [OF pos, of n "2 ^ 53"] by blast
  also have "(2::nat) ^ 53 * 2 ^ ?e = 2 ^ (53 + ?e)" by (rule power_add [symmetric])
  finally have "n < 2 ^ (53 + ?e)" .
  with assms have "(2::nat) ^ 1024 < 2 ^ (53 + ?e)" by (rule le_less_trans)
  then have "1024 < 53 + ?e" by (rule power_less_imp_less_exp [rotated]) simp
  then have e: "972 \<le> ?e" by arith
  have "(2::nat) ^ 972 \<le> 2 ^ ?e" using e by (rule power_increasing) simp
  with q have "(2::nat) ^ 52 * 2 ^ 972 \<le> ?q * 2 ^ ?e" by (rule mult_le_mono)
  moreover have "(2::nat) ^ 52 * 2 ^ 972 = 2 ^ (52 + 972)" by (rule power_add [symmetric])
  moreover have "(52::nat) + 972 = 1024" by simp
  ultimately have low: "(2::nat) ^ 1024 \<le> ?q * 2 ^ ?e" by (simp only:)
  have "?q * 2 ^ ?e \<le> (?q + 1) * 2 ^ ?e" by (rule mult_le_mono1) simp
  with low have high: "(2::nat) ^ 1024 \<le> (?q + 1) * 2 ^ ?e" by (rule le_trans)
  show ?thesis
    unfolding to_double_def Let_def using low high
    by (simp only: if_P split: if_split) blast
qed

lemma units_value_js: "units_value (js s) = nat_of_digits s"
  by (simp add: units_value_def js_def nat_of_digits_def digit_val_def foldl_map)

lemma js_digits: "\<forall>c \<in> set s. is_digit c \<Longrightarrow> \<forall>u \<in> set (js s). is_decimal_digit u"
  by (auto simp add: js_def is_digit_def is_decimal_digit_def)

lemma js_literals [simp]: "js ''+'' = [43]" "js ''-'' = [45]" "js [] = []"
  by (simp_all add: js_def)

lemma decimal_digit_not:
  "is_decimal_digit u \<Longrightarrow> \<not> is_ws u \<and> u \<noteq> 43 \<and> u \<noteq> 45"
  by (auto simp add: is_decimal_digit_def is_ws_def)

lemma sign_not_ws: "\<not> is_ws 43" "\<not> is_ws 45"
  by (simp_all add: is_ws_def)

lemma takeWhile_digits_prefix:
  assumes "\<forall>u \<in> set ds. is_decimal_digit u" and "rest = [] \<or> \<not> is_decimal_digit (hd rest)"
  shows "takeWhile is_decimal_digit (ds @ rest) = ds"
proof -
  have "takeWhile is_decimal_digit rest = []"
    using assms(2) by (cases rest) auto
  with assms(1) show ?thesis by (simp add: takeWhile_append2)
qed

lemma parseInt10_skip_ws:
  "\<forall>u \<in> set ws. is_ws u \<Longrightarrow> parseInt10 (ws @ S) = parseInt10 S"
  by (simp add: parseInt10_def dropWhile_append2)

lemma parseInt10_heads:
  "parseInt10 [] = NaN"
  "parseInt10 (43 # T) =
     (if takeWhile is_decimal_digit T = [] then NaN
      else signed_double 1 (units_value (takeWhile is_decimal_digit T)))"
  "parseInt10 (45 # T) =
     (if takeWhile is_decimal_digit T = [] then NaN
      else signed_double (- 1) (units_value (takeWhile is_decimal_digit T)))"
  "is_decimal_digit d \<Longrightarrow>
     parseInt10 (d # T) = signed_double 1 (units_value (takeWhile is_decimal_digit (d # T)))"
  "\<not> is_ws x \<Longrightarrow> x \<noteq> 43 \<Longrightarrow> x \<noteq> 45 \<Longrightarrow> \<not> is_decimal_digit x \<Longrightarrow> parseInt10 (x # T) = NaN"
  using sign_not_ws decimal_digit_not [of d]
  by (simp_all add: parseInt10_def Let_def)

lemma parseInt10_digits:
  assumes "\<forall>u \<in> set ws. is_ws u"
    and "sg = [] \<or> sg = js ''+'' \<or> sg = js ''-''"
    and "ds \<noteq> []" and "\<forall>u \<in> set ds. is_decimal_digit u"
    and "rest = [] \<or> \<not> is_decimal_digit (hd rest)"
  shows "parseInt10 (ws @ sg @ ds @ rest)
           = signed_double (if sg = js ''-'' then - 1 else 1) (units_value ds)"
proof -
  obtain d ds' where ds: "ds = d # ds'" using assms(3) by (cases ds) auto
  have d: "is_decimal_digit d" using assms(4) ds by simp
  have tw: "takeWhile is_decimal_digit (ds @ rest) = ds"
    using takeWhile_digits_prefix [OF assms(4,5)] .
  have ws: "parseInt10 (ws @ sg @ ds @ rest) = parseInt10 (sg @ ds @ rest)"
    using assms(1) by (rule parseInt10_skip_ws)
  from assms(2) show ?thesis
  proof (elim disjE)
    assume sg: "sg = []"
    have "parseInt10 (d # ds' @ rest) =
            signed_double 1 (units_value (takeWhile is_decimal_digit (d # ds' @ rest)))"
      using d by (rule parseInt10_heads(4))
    moreover have "takeWhile is_decimal_digit (d # ds' @ rest) = ds"
      using tw by (simp only: ds append_Cons)
    ultimately have "parseInt10 (ds @ rest) = signed_double 1 (units_value ds)"
      by (simp only: ds append_Cons)
    then show ?thesis by (simp only: ws) (simp add: sg)
  next
    assume sg: "sg = js ''+''"
    have "parseInt10 (43 # ds @ rest) = signed_double 1 (units_value ds)"
      using assms(3) by (simp only: parseInt10_heads(2) tw) simp
    then show ?thesis by (simp only: ws) (simp add: sg)
  next
    assume sg: "sg = js ''-''"
    have "parseInt10 (45 # ds @ rest) = signed_double (- 1) (units_value ds)"
      using assms(3) by (simp only: parseInt10_heads(3) tw) simp
    then show ?thesis by (simp only: ws) (simp add: sg)
  qed
qed

lemma parseInt10_no_digit:
  assumes "\<forall>u \<in> set ws. is_ws u"
    and "sg = [] \<or> sg = js ''+'' \<or> sg = js ''-''"
    and "rest = [] \<or> \<not> is_decimal_digit (hd rest)"
    and "sg = [] \<longrightarrow> rest = [] \<or> (\<not> is_ws (hd rest) \<and> hd rest \<noteq> 43 \<and> hd rest \<noteq> 45)"
  shows "parseInt10 (ws @ sg @ rest) = NaN"
proof -
  have tw: "takeWhile is_decimal_digit rest = []"
    using assms(3) by (cases rest) auto
  have ws: "parseInt10 (ws @ sg @ rest) = parseInt10 (sg @ rest)"
    using assms(1) by (rule parseInt10_skip_ws)
  from assms(2) show ?thesis
  proof (elim disjE)
    assume sg: "sg = []"
    show ?thesis
    proof (cases rest)
      case Nil
      with ws show ?thesis by (simp add: sg parseInt10_heads(1))
    next
      case (Cons x xs)
      with assms(3,4) sg have "\<not> is_decimal_digit x" "\<not> is_ws x" "x \<noteq> 43" "x \<noteq> 45"
        by auto
      then have "parseInt10 (x # xs) = NaN" by (simp add: parseInt10_heads(5))
      then show ?thesis by (simp only: ws) (simp add: sg Cons)
    qed
  next
    assume sg: "sg = js ''+''"
    have "parseInt10 (43 # rest) = NaN" by (simp only: parseInt10_heads(2) tw) simp
    then show ?thesis by (simp only: ws) (simp add: sg)
  next
    assume sg: "sg = js ''-''"
    have "parseInt10 (45 # rest) = NaN" by (simp only: parseInt10_heads(3) tw) simp
    then show ?thesis by (simp only: ws) (simp add: sg)
  qed
qed

lemma to_double_cases:
  "(\<exists>d. to_double n = Num d \<and> 0 \<le> d) \<or> to_double n = PosInfinity"
  by (simp add: to_double_def Let_def)

lemma resolveJobTimeoutMs_digits:
  assumes "\<forall>u \<in> set ws. is_ws u"
    and "sg = [] \<or> sg = js ''+'' \<or> sg = js ''-''"
    and "ds \<noteq> []" and "\<forall>u \<in> set ds. is_decimal_digit u"
    and "rest = [] \<or> \<not> is_decimal_digit (hd rest)"
  shows "resolveJobTimeoutMs (Some (ws @ sg @ ds @ rest)) =
           (case to_double (units_value ds) of
              Num d \<Rightarrow> if sg \<noteq> js ''-'' \<and> 0 < d then d else 1200000
            | other \<Rightarrow> 1200000)"
  using to_double_cases [of "units_value ds"]
  by (auto simp add: resolveJobTimeoutMs_def nullish_def parseInt10_digits [OF assms]
      signed_double_def DEFAULT_JOB_TIMEOUT_MS_def)

lemma resolveJobTimeoutMs_no_digit:
  assumes "\<forall>u \<in> set ws. is_ws u"
    and "sg = [] \<or> sg = js ''+'' \<or> sg = js ''-''"
    and "rest = [] \<or> \<not> is_decimal_digit (hd rest)"
    and "sg = [] \<longrightarrow> rest = [] \<or> (\<not> is_ws (hd rest) \<and> hd rest \<noteq> 43 \<and> hd rest \<noteq> 45)"
  shows "resolveJobTimeoutMs (Some (ws @ sg @ rest)) = 1200000"
  by (simp add: resolveJobTimeoutMs_def nullish_def parseInt10_no_digit [OF assms]
      DEFAULT_JOB_TIMEOUT_MS_def)

lemma js_string_of_nat:
  "js (string_of_nat n) \<noteq> []" "\<forall>u \<in> set (js (string_of_nat n)). is_decimal_digit u"
  "units_value (js (string_of_nat n)) = n"
  using js_digits [of "string_of_nat n"] string_of_nat_digits [of _ n]
  by (simp_all add: units_value_js nat_of_digits_string_of_nat)
    (simp add: js_def string_of_nat_nonempty)

lemma resolveJobTimeoutMs_numeral:
  "resolveJobTimeoutMs (Some (js (string_of_int i))) =
     (case to_double (nat i) of
        Num d \<Rightarrow> if 0 < i \<and> 0 < d then d else 1200000
      | other \<Rightarrow> 1200000)"
proof (cases "i < 0")
  case False
  have "resolveJobTimeoutMs (Some ([] @ [] @ js (string_of_nat (nat i)) @ [])) =
           (case to_double (units_value (js (string_of_nat (nat i)))) of
              Num d \<Rightarrow> if [] \<noteq> js ''-'' \<and> 0 < d then d else 1200000
            | other \<Rightarrow> 1200000)"
    by (rule resolveJobTimeoutMs_digits) (simp_all add: js_string_of_nat)
  moreover have "to_double (nat i) = Num 0" if "i = 0"
    using that by (simp add: to_double_exact)
  ultimately show ?thesis using False
    by (cases "i = 0")
      (auto simp add: string_of_int_def js_string_of_nat split: jsnum.splits)
next
  case True
  have "resolveJobTimeoutMs (Some ([] @ js ''-'' @ js (string_of_nat (nat (- i))) @ [])) =
           (case to_double (units_value (js (string_of_nat (nat (- i))))) of
              Num d \<Rightarrow> if js ''-'' \<noteq> js ''-'' \<and> 0 < d then d else 1200000
            | other \<Rightarrow> 1200000)"
    by (rule resolveJobTimeoutMs_digits) (simp_all add: js_string_of_nat)
  then show ?thesis using True
    by (auto simp add: string_of_int_def js_def split: jsnum.splits)
qed

lemma resolveJobTimeoutMs_positive: "0 < resolveJobTimeoutMs envValue"
  by (simp add: resolveJobTimeoutMs_def DEFAULT_JOB_TIMEOUT_MS_def split: jsnum.splits)

lemma split_digits:
  "(\<exists>ds rest. T = ds @ rest \<and> ds \<noteq> [] \<and> (\<forall>u \<in> set ds. is_decimal_digit u)
       \<and> (rest = [] \<or> \<not> is_decimal_digit (hd rest)))
   \<or> (T = [] \<or> \<not> is_decimal_digit (hd T))"
proof (cases "T = [] \<or> \<not> is_decimal_digit (hd T)")
  case True
  then show ?thesis by blast
next
  case False
  let ?ds = "takeWhile is_decimal_digit T"
  let ?rest = "dropWhile is_decimal_digit T"
  have 1: "T = ?ds @ ?rest" by simp
  have 2: "?ds \<noteq> []" using False by (cases T) auto
  have 3: "\<forall>u \<in> set ?ds. is_decimal_digit u" by (auto dest: set_takeWhileD)
  have 4: "?rest = [] \<or> \<not> is_decimal_digit (hd ?rest)" using hd_dropWhile by blast
  from 1 2 3 4 show ?thesis by blast
qed

lemma value_shapes:
  "(\<exists>ws sg ds rest.
       v = ws @ sg @ ds @ rest \<and> (\<forall>u \<in> set ws. is_ws u)
       \<and> (sg = [] \<or> sg = js ''+'' \<or> sg = js ''-'')
       \<and> ds \<noteq> [] \<and> (\<forall>u \<in> set ds. is_decimal_digit u)
       \<and> (rest = [] \<or> \<not> is_decimal_digit (hd rest)))
   \<or> (\<exists>ws sg rest.
       v = ws @ sg @ rest \<and> (\<forall>u \<in> set ws. is_ws u)
       \<and> (sg = [] \<or> sg = js ''+'' \<or> sg = js ''-'')
       \<and> (rest = [] \<or> \<not> is_decimal_digit (hd rest))
       \<and> (sg = [] \<longrightarrow> rest = [] \<or> (\<not> is_ws (hd rest) \<and> hd rest \<noteq> 43 \<and> hd rest \<noteq> 45)))"
proof -
  let ?ws = "takeWhile is_ws v"
  let ?S = "dropWhile is_ws v"
  have v: "v = ?ws @ ?S" by simp
  have ws: "\<forall>u \<in> set ?ws. is_ws u" by (auto dest: set_takeWhileD)
  have S: "?S = [] \<or> \<not> is_ws (hd ?S)" using hd_dropWhile by blast
  obtain sg T where sgT: "?S = sg @ T" "sg = [] \<or> sg = js ''+'' \<or> sg = js ''-''"
    "sg = [] \<longrightarrow> T = [] \<or> (\<not> is_ws (hd T) \<and> hd T \<noteq> 43 \<and> hd T \<noteq> 45)"
  proof (cases "?S \<noteq> [] \<and> (hd ?S = 43 \<or> hd ?S = 45)")
    case True
    then have "?S = [hd ?S] @ tl ?S" by simp
    with True that [of "[hd ?S]" "tl ?S"] show ?thesis by auto
  next
    case False
    with S that [of "[]" ?S] show ?thesis by auto
  qed
  from split_digits [of T] show ?thesis
  proof
    assume "\<exists>ds rest. T = ds @ rest \<and> ds \<noteq> [] \<and> (\<forall>u \<in> set ds. is_decimal_digit u)
       \<and> (rest = [] \<or> \<not> is_decimal_digit (hd rest))"
    then obtain ds rest where d: "T = ds @ rest" "ds \<noteq> []" "\<forall>u \<in> set ds. is_decimal_digit u"
      "rest = [] \<or> \<not> is_decimal_digit (hd rest)" by blast
    have "v = ?ws @ sg @ ds @ rest" using v sgT(1) d(1) by simp
    with ws sgT(2) d(2,3,4) show ?thesis by blast
  next
    assume n: "T = [] \<or> \<not> is_decimal_digit (hd T)"
    have "v = ?ws @ sg @ T" using v sgT(1) by simp
    with ws sgT(2,3) n show ?thesis by blast
  qed
qed

lemma resolveJobTimeoutMs_safe_numeral:
  assumes "0 < i" and "i \<le> 2 ^ 53"
  shows "resolveJobTimeoutMs (Some (js (string_of_int i))) = i"
proof -
  have "int (nat i) \<le> int (2 ^ 53)" using assms by simp
  then have "nat i \<le> 2 ^ 53" by (simp only: of_nat_le_iff)
  then have "to_double (nat i) = Num (int (nat i))" by (rule to_double_exact)
  with assms(1) show ?thesis
    by (simp add: resolveJobTimeoutMs_numeral)
qed

lemma resolveJobTimeoutMs_nonpositive_numeral:
  "i \<le> 0 \<Longrightarrow> resolveJobTimeoutMs (Some (js (string_of_int i))) = 1200000"
  by (simp add: resolveJobTimeoutMs_numeral split: jsnum.splits)

lemma resolveJobTimeoutMs_overflow_numeral:
  assumes "2 ^ 1024 \<le> i"
  shows "resolveJobTimeoutMs (Some (js (string_of_int i))) = 1200000"
proof -
  have "(0::int) \<le> 2 ^ 1024" by (rule zero_le_power) simp
  then have pos: "0 \<le> i" using assms by (rule order_trans)
  have "int (2 ^ 1024) = 2 ^ 1024" by (simp only: of_nat_power of_nat_numeral)
  with assms pos have "int (2 ^ 1024) \<le> int (nat i)" by (simp only: int_nat_eq if_True)
  then have "2 ^ 1024 \<le> nat i" by (simp only: of_nat_le_iff)
  then have "to_double (nat i) = PosInfinity" by (rule to_double_overflow)
  then show ?thesis
    by (simp add: resolveJobTimeoutMs_numeral)
qed

lemma resolveJobTimeoutMs_nonpositive:
  "parseInt10 v = Num n \<Longrightarrow> n \<le> 0 \<Longrightarrow> resolveJobTimeoutMs (Some v) = 1200000"
  by (simp add: resolveJobTimeoutMs_def nullish_def DEFAULT_JOB_TIMEOUT_MS_def)

section \<open>The timeout budget: what the override gives\<close>

text \<open>
  Claim C5 says that the budget is the override when it parses to a positive integer
  count of milliseconds, and the default of 20 minutes for every non-positive or
  non-numeric value. It fails. The values \<open>12abc\<close> and \<open>1e3\<close> are not decimal numerals
  of integers, and the budget is 12 and 1, not the default. The numeral of \<open>2^53 + 1\<close>
  is a positive integer, and the budget is \<open>2^53\<close>. The numeral of \<open>10^309\<close> is a positive
  integer, and the budget is the default.
\<close>

theorem resolveJobTimeoutMs_prefix_rounding_overflow:
  "resolveJobTimeoutMs (Some (js ''12abc'')) = 12
   \<and> resolveJobTimeoutMs (Some (js ''1e3'')) = 1
   \<and> resolveJobTimeoutMs (Some (js ''9007199254740993'')) = 9007199254740992
   \<and> resolveJobTimeoutMs (Some (js (string_of_int (10 ^ 309)))) = 1200000"
proof -
  have 1: "resolveJobTimeoutMs (Some (js ''12abc'')) = 12"
    by (simp add: resolveJobTimeoutMs_def nullish_def parse_eval)
  have 2: "resolveJobTimeoutMs (Some (js ''1e3'')) = 1"
    by (simp add: resolveJobTimeoutMs_def nullish_def parse_eval)
  have 3: "resolveJobTimeoutMs (Some (js ''9007199254740993'')) = 9007199254740992"
    by (simp add: resolveJobTimeoutMs_def nullish_def parse_eval)
  have "(2::int) ^ 1024 \<le> 10 ^ 309" by simp
  then have 4: "resolveJobTimeoutMs (Some (js (string_of_int (10 ^ 309)))) = 1200000"
    by (rule resolveJobTimeoutMs_overflow_numeral)
  from 1 2 3 4 show ?thesis by (intro conjI)
qed

text \<open>
  Claim C5, amended. The budget is 1,200,000 ms when the variable is not set. Every value
  consists of white space, at most one sign and then either one or more decimal digits
  with a rest that does not start with a digit, or no digit at all. With digits, the
  budget is the Number that the digits denote, which is their integer rounded to a
  double, when the sign is not a minus and that Number is positive and finite, and
  1,200,000 ms otherwise. With no digit the budget is 1,200,000 ms. The Number of an
  integer up to \<open>2^53\<close> is that integer, and the Number of an integer from \<open>2^1024\<close> on
  is \<open>Infinity\<close>. So the decimal numeral of a positive integer up to \<open>2^53\<close> gives that
  integer, the numeral of zero or of a negative integer gives the default, and so does
  the numeral of an integer from \<open>2^1024\<close> on.
\<close>

theorem resolveJobTimeoutMs_reads_decimal_prefix:
  "resolveJobTimeoutMs None = 1200000
   \<and> (\<forall>ws sg ds rest.
         (\<forall>u \<in> set ws. is_ws u) \<and> (sg = [] \<or> sg = js ''+'' \<or> sg = js ''-'')
         \<and> ds \<noteq> [] \<and> (\<forall>u \<in> set ds. is_decimal_digit u)
         \<and> (rest = [] \<or> \<not> is_decimal_digit (hd rest))
         \<longrightarrow> resolveJobTimeoutMs (Some (ws @ sg @ ds @ rest)) =
               (case to_double (units_value ds) of
                  Num d \<Rightarrow> if sg \<noteq> js ''-'' \<and> 0 < d then d else 1200000
                | other \<Rightarrow> 1200000))
   \<and> (\<forall>ws sg rest.
         (\<forall>u \<in> set ws. is_ws u) \<and> (sg = [] \<or> sg = js ''+'' \<or> sg = js ''-'')
         \<and> (rest = [] \<or> \<not> is_decimal_digit (hd rest))
         \<and> (sg = [] \<longrightarrow> rest = [] \<or> (\<not> is_ws (hd rest) \<and> hd rest \<noteq> 43 \<and> hd rest \<noteq> 45))
         \<longrightarrow> resolveJobTimeoutMs (Some (ws @ sg @ rest)) = 1200000)
   \<and> (\<forall>v. (\<exists>ws sg ds rest.
               v = ws @ sg @ ds @ rest \<and> (\<forall>u \<in> set ws. is_ws u)
               \<and> (sg = [] \<or> sg = js ''+'' \<or> sg = js ''-'')
               \<and> ds \<noteq> [] \<and> (\<forall>u \<in> set ds. is_decimal_digit u)
               \<and> (rest = [] \<or> \<not> is_decimal_digit (hd rest)))
           \<or> (\<exists>ws sg rest.
               v = ws @ sg @ rest \<and> (\<forall>u \<in> set ws. is_ws u)
               \<and> (sg = [] \<or> sg = js ''+'' \<or> sg = js ''-'')
               \<and> (rest = [] \<or> \<not> is_decimal_digit (hd rest))
               \<and> (sg = [] \<longrightarrow>
                    rest = [] \<or> (\<not> is_ws (hd rest) \<and> hd rest \<noteq> 43 \<and> hd rest \<noteq> 45))))
   \<and> (\<forall>n. n \<le> 2 ^ 53 \<longrightarrow> to_double n = Num (int n))
   \<and> (\<forall>n. 2 ^ 1024 \<le> n \<longrightarrow> to_double n = PosInfinity)
   \<and> (\<forall>i. 0 < i \<and> i \<le> 2 ^ 53 \<longrightarrow> resolveJobTimeoutMs (Some (js (string_of_int i))) = i)
   \<and> (\<forall>i. i \<le> 0 \<longrightarrow> resolveJobTimeoutMs (Some (js (string_of_int i))) = 1200000)
   \<and> (\<forall>i. 2 ^ 1024 \<le> i \<longrightarrow> resolveJobTimeoutMs (Some (js (string_of_int i))) = 1200000)"
proof -
  have a: "resolveJobTimeoutMs None = 1200000"
    by (simp add: resolveJobTimeoutMs_def nullish_def parseInt10_heads(1)
        DEFAULT_JOB_TIMEOUT_MS_def)
  have b: "\<forall>ws sg ds rest.
         (\<forall>u \<in> set ws. is_ws u) \<and> (sg = [] \<or> sg = js ''+'' \<or> sg = js ''-'')
         \<and> ds \<noteq> [] \<and> (\<forall>u \<in> set ds. is_decimal_digit u)
         \<and> (rest = [] \<or> \<not> is_decimal_digit (hd rest))
         \<longrightarrow> resolveJobTimeoutMs (Some (ws @ sg @ ds @ rest)) =
               (case to_double (units_value ds) of
                  Num d \<Rightarrow> if sg \<noteq> js ''-'' \<and> 0 < d then d else 1200000
                | other \<Rightarrow> 1200000)"
    by (intro allI impI, elim conjE, rule resolveJobTimeoutMs_digits)
  have c: "\<forall>ws sg rest.
         (\<forall>u \<in> set ws. is_ws u) \<and> (sg = [] \<or> sg = js ''+'' \<or> sg = js ''-'')
         \<and> (rest = [] \<or> \<not> is_decimal_digit (hd rest))
         \<and> (sg = [] \<longrightarrow> rest = [] \<or> (\<not> is_ws (hd rest) \<and> hd rest \<noteq> 43 \<and> hd rest \<noteq> 45))
         \<longrightarrow> resolveJobTimeoutMs (Some (ws @ sg @ rest)) = 1200000"
    by (intro allI impI, elim conjE, rule resolveJobTimeoutMs_no_digit)
  note d = allI [of "\<lambda>v. _ v", OF value_shapes]
  have e: "\<forall>n. n \<le> 2 ^ 53 \<longrightarrow> to_double n = Num (int n)"
    by (intro allI impI, rule to_double_exact)
  have f: "\<forall>n. 2 ^ 1024 \<le> n \<longrightarrow> to_double n = PosInfinity"
    by (intro allI impI, rule to_double_overflow)
  have g: "\<forall>i. 0 < i \<and> i \<le> 2 ^ 53 \<longrightarrow> resolveJobTimeoutMs (Some (js (string_of_int i))) = i"
    by (intro allI impI, elim conjE, rule resolveJobTimeoutMs_safe_numeral)
  have h: "\<forall>i. i \<le> 0 \<longrightarrow> resolveJobTimeoutMs (Some (js (string_of_int i))) = 1200000"
    by (intro allI impI, rule resolveJobTimeoutMs_nonpositive_numeral)
  have k: "\<forall>i. 2 ^ 1024 \<le> i \<longrightarrow> resolveJobTimeoutMs (Some (js (string_of_int i))) = 1200000"
    by (intro allI impI, rule resolveJobTimeoutMs_overflow_numeral)
  show ?thesis
    by (rule conjI [OF a conjI [OF b conjI [OF c conjI [OF d conjI [OF e conjI [OF f
          conjI [OF g conjI [OF h k]]]]]]]])
qed

theorem resolveJobTimeoutMs_reads_decimal_prefix_witness:
  "resolveJobTimeoutMs (Some ([160] @ [] @ js ''15'' @ [])) = 15
   \<and> resolveJobTimeoutMs (Some (js '' '' @ js ''+'' @ js ''15'' @ js ''s'')) = 15
   \<and> resolveJobTimeoutMs (Some ([] @ [] @ js ''12'' @ js ''abc'')) = 12
   \<and> resolveJobTimeoutMs (Some ([] @ js ''-'' @ js ''5'' @ [])) = 1200000
   \<and> resolveJobTimeoutMs (Some ([] @ [] @ js ''0'' @ [])) = 1200000
   \<and> resolveJobTimeoutMs (Some ([] @ [] @ js ''soon'')) = 1200000
   \<and> resolveJobTimeoutMs (Some (js '' '' @ js ''-'' @ js '' 5'')) = 1200000
   \<and> to_double (2 ^ 53) = Num (2 ^ 53)
   \<and> to_double (10 ^ 309) = PosInfinity
   \<and> resolveJobTimeoutMs (Some (js (string_of_int 250))) = 250
   \<and> resolveJobTimeoutMs (Some (js (string_of_int (- 3)))) = 1200000
   \<and> resolveJobTimeoutMs (Some (js (string_of_int (10 ^ 309)))) = 1200000"
proof -
  note T = resolveJobTimeoutMs_reads_decimal_prefix
  note A = T [THEN conjunct2, THEN conjunct1, rule_format]
  note B = T [THEN conjunct2, THEN conjunct2, THEN conjunct1, rule_format]
  note E = T [THEN conjunct2, THEN conjunct2, THEN conjunct2, THEN conjunct2,
      THEN conjunct1, rule_format]
  note F = T [THEN conjunct2, THEN conjunct2, THEN conjunct2, THEN conjunct2,
      THEN conjunct2, THEN conjunct1, rule_format]
  note G = T [THEN conjunct2, THEN conjunct2, THEN conjunct2, THEN conjunct2,
      THEN conjunct2, THEN conjunct2, THEN conjunct1, rule_format]
  note H = T [THEN conjunct2, THEN conjunct2, THEN conjunct2, THEN conjunct2,
      THEN conjunct2, THEN conjunct2, THEN conjunct2, THEN conjunct1, rule_format]
  note K = T [THEN conjunct2, THEN conjunct2, THEN conjunct2, THEN conjunct2,
      THEN conjunct2, THEN conjunct2, THEN conjunct2, THEN conjunct2, rule_format]
  note ev = js_def is_ws_def is_decimal_digit_def units_value_def to_double_def Let_def
    double_exponent.simps
  have 1: "resolveJobTimeoutMs (Some ([160] @ [] @ js ''15'' @ [])) = 15"
    using A [of "[160]" "[]" "js ''15''" "[]"] by (simp add: ev)
  have 2: "resolveJobTimeoutMs (Some (js '' '' @ js ''+'' @ js ''15'' @ js ''s'')) = 15"
    using A [of "js '' ''" "js ''+''" "js ''15''" "js ''s''"] by (simp add: ev)
  have 3: "resolveJobTimeoutMs (Some ([] @ [] @ js ''12'' @ js ''abc'')) = 12"
    using A [of "[]" "[]" "js ''12''" "js ''abc''"] by (simp add: ev)
  have 4: "resolveJobTimeoutMs (Some ([] @ js ''-'' @ js ''5'' @ [])) = 1200000"
    using A [of "[]" "js ''-''" "js ''5''" "[]"] by (simp add: ev)
  have 5: "resolveJobTimeoutMs (Some ([] @ [] @ js ''0'' @ [])) = 1200000"
    using A [of "[]" "[]" "js ''0''" "[]"] by (simp add: ev)
  have 6: "resolveJobTimeoutMs (Some ([] @ [] @ js ''soon'')) = 1200000"
    using B [of "[]" "[]" "js ''soon''"] by (simp add: ev)
  have 7: "resolveJobTimeoutMs (Some (js '' '' @ js ''-'' @ js '' 5'')) = 1200000"
    using B [of "js '' ''" "js ''-''" "js '' 5''"] by (simp add: ev)
  have 8: "to_double (2 ^ 53) = Num (2 ^ 53)"
    using E [of "2 ^ 53"] by simp
  have "(2::nat) ^ 1024 \<le> 10 ^ 309" by simp
  then have 9: "to_double (10 ^ 309) = PosInfinity" by (rule F)
  have 10: "resolveJobTimeoutMs (Some (js (string_of_int 250))) = 250"
    using G [of 250] by simp
  have 11: "resolveJobTimeoutMs (Some (js (string_of_int (- 3)))) = 1200000"
    using H [of "- 3"] by simp
  have "(2::int) ^ 1024 \<le> 10 ^ 309" by simp
  then have 12: "resolveJobTimeoutMs (Some (js (string_of_int (10 ^ 309)))) = 1200000"
    by (rule K)
  from 1 2 3 4 5 6 7 8 9 10 11 12 show ?thesis by (intro conjI)
qed

section \<open>Effects of the operations\<close>

lemma logger_log_fields [simp]:
  "jobs (logger_log lg l c m s) = jobs s"
  "jobIdCounter (logger_log lg l c m s) = jobIdCounter s"
  "closures (logger_log lg l c m s) = closures s"
  "spawned (logger_log lg l c m s) = spawned s"
  "signals (logger_log lg l c m s) = signals s"
  "killTimers (logger_log lg l c m s) = killTimers s"
  by (simp_all add: logger_log_def split: option.splits)

lemma CLI_CONFIG_model_key: "\<exists>cc. CLI_CONFIG (model_key m) = Some cc"
  by (cases m) (simp_all add: CLI_CONFIG_def)

lemma id_counter_generated:
  "id_counter (''job_'' @ string_of_int t @ ''_'' @ string_of_nat c) = c"
proof -
  have "\<forall>x \<in> set (rev (string_of_nat c)). x \<noteq> CHR ''_''"
    using string_of_nat_digits is_digit_not_underscore by auto
  then have "takeWhile (\<lambda>x. x \<noteq> CHR ''_'')
               (rev (string_of_nat c) @ CHR ''_'' # rev (''job_'' @ string_of_int t))
             = rev (string_of_nat c)"
    by (simp add: takeWhile_append2 del: rev_append rev.simps set_rev)
  then show ?thesis
    by (simp add: id_counter_def nat_of_digits_string_of_nat)
qed

lemma id_counter_new_id: "id_counter (new_id amb s) = Suc (jobIdCounter s)"
  using id_counter_generated [of "Date_now amb" "Suc (jobIdCounter s)"]
  by (simp add: new_id_def generateJobId_def Let_def)

lemma startTaskAsync_effect:
  "jobs (snd (startTaskAsync amb mdl mId task cwd tName lg s))
     = (jobs s)(new_id amb s \<mapsto> new_job amb tName)"
  "jobIdCounter (snd (startTaskAsync amb mdl mId task cwd tName lg s)) = Suc (jobIdCounter s)"
  "CLI_CONFIG mdl = Some cc \<Longrightarrow>
     fst (startTaskAsync amb mdl mId task cwd tName lg s) = Inr (new_id amb s)"
  "CLI_CONFIG mdl = Some cc \<Longrightarrow>
     closures (snd (startTaskAsync amb mdl mId task cwd tName lg s))
       = (closures s)(new_id amb s \<mapsto>
           \<lparr>cl_toolName = tName,
            cl_timeoutMs = resolveJobTimeoutMs (DYNAMIC_MCP_JOB_TIMEOUT_MS amb),
            cl_logger = lg,
            cl_timerArmed = (0 < resolveJobTimeoutMs (DYNAMIC_MCP_JOB_TIMEOUT_MS amb))\<rparr>)"
  "CLI_CONFIG mdl = None \<Longrightarrow>
     fst (startTaskAsync amb mdl mId task cwd tName lg s) = Inl TypeError"
  "CLI_CONFIG mdl = None \<Longrightarrow>
     closures (snd (startTaskAsync amb mdl mId task cwd tName lg s)) = closures s"
  by (simp_all add: startTaskAsync_def generateJobId_def new_id_def new_job_def Let_def
      split: option.splits)

lemma timeoutCallback_effect:
  "jobs (timeoutCallback now jobId tMs lg s) =
     (case jobs s jobId of
        None \<Rightarrow> jobs s
      | Some j \<Rightarrow>
          if status j \<noteq> Running then jobs s
          else (jobs s)(jobId \<mapsto>
                 j\<lparr>status := Failed, completedAt := Some now,
                   result := Some \<lparr>exitCode = - 1, stdout = [],
                     stderr = ''Timed out after '' @ string_of_int tMs @ ''ms''\<rparr>,
                   timedOut := Some True\<rparr>))"
  "jobIdCounter (timeoutCallback now jobId tMs lg s) = jobIdCounter s"
  "closures (timeoutCallback now jobId tMs lg s) = closures s"
  by (simp_all add: timeoutCallback_def Let_def split: option.splits)

lemma clearTimeout_fields [simp]:
  "jobs (clearTimeout jobId s) = jobs s"
  "jobIdCounter (clearTimeout jobId s) = jobIdCounter s"
  by (simp_all add: clearTimeout_def split: option.splits)

lemma clearTimeout_closures:
  "closures (clearTimeout jobId s) k = Some cl' \<Longrightarrow>
     \<exists>cl. closures s k = Some cl \<and> cl_timeoutMs cl' = cl_timeoutMs cl"
  by (auto simp add: clearTimeout_def split: option.splits if_splits)

lemma finalizeJob_effect:
  "jobs (finalizeJob now jobId lg st res s) =
     (case jobs s jobId of
        None \<Rightarrow> jobs s
      | Some j \<Rightarrow>
          if status j \<noteq> Running then jobs s
          else (jobs s)(jobId \<mapsto> j\<lparr>status := st, completedAt := Some now, result := Some res\<rparr>))"
  "jobIdCounter (finalizeJob now jobId lg st res s) = jobIdCounter s"
  by (simp_all add: finalizeJob_def Let_def split: option.splits)

lemma finalizeJob_closures:
  "closures (finalizeJob now jobId lg st res s) k = Some cl' \<Longrightarrow>
     \<exists>cl. closures s k = Some cl \<and> cl_timeoutMs cl' = cl_timeoutMs cl"
  using clearTimeout_closures [of jobId s k cl']
  by (auto simp add: finalizeJob_def Let_def split: option.splits if_splits)

lemma subprocessSettled_finalizeJob:
  "subprocessSettled now jobId lg outcome s =
     finalizeJob now jobId lg (settled_status outcome) (settled_result outcome) s"
  by (simp add: subprocessSettled_def settled_status_def settled_result_def
      split: exec_outcome.splits)

lemma settled_status_terminal: "settled_status outcome \<noteq> Running"
  by (simp add: settled_status_def split: exec_outcome.splits)

lemma syncToolHandler_effect:
  "jobs (snd (syncToolHandler exec cfg t lg amb fullTask cwd s)) = jobs s"
  "jobIdCounter (snd (syncToolHandler exec cfg t lg amb fullTask cwd s)) = jobIdCounter s"
  "closures (snd (syncToolHandler exec cfg t lg amb fullTask cwd s)) = closures s"
  by (simp_all add: syncToolHandler_def Let_def split: sum.splits)

lemma asyncToolHandler_effect:
  "jobs (snd (asyncToolHandler cfg t lg amb fullTask cwd s))
     = (jobs s)(new_id amb s \<mapsto> new_job amb (name t))"
  "jobIdCounter (snd (asyncToolHandler cfg t lg amb fullTask cwd s)) = Suc (jobIdCounter s)"
  "closures (snd (asyncToolHandler cfg t lg amb fullTask cwd s))
       = (closures s)(new_id amb s \<mapsto>
           \<lparr>cl_toolName = name t,
            cl_timeoutMs = resolveJobTimeoutMs (DYNAMIC_MCP_JOB_TIMEOUT_MS amb),
            cl_logger = lg,
            cl_timerArmed = (0 < resolveJobTimeoutMs (DYNAMIC_MCP_JOB_TIMEOUT_MS amb))\<rparr>)"
  "\<exists>r. fst (asyncToolHandler cfg t lg amb fullTask cwd s) = Inr r \<and>
       (\<exists>msg. structuredContent r = JobHandleContent (new_id amb s) Running msg) \<and>
       \<not> isError r"
proof -
  obtain cc where cc: "CLI_CONFIG (model_key (model cfg)) = Some cc"
    using CLI_CONFIG_model_key by blast
  let ?s1 = "logger_log lg info ''requests'' ''tool_request'' s"
  let ?st = "startTaskAsync amb (model_key (model cfg)) (modelId cfg) fullTask cwd (name t) lg ?s1"
  have id: "new_id amb ?s1 = new_id amb s"
    by (simp add: new_id_def generateJobId_def Let_def)
  obtain r s2 where st: "?st = (r, s2)" by (cases ?st)
  have r: "r = Inr (new_id amb s)"
    using startTaskAsync_effect(3) [OF cc, of amb "modelId cfg" fullTask cwd "name t" lg ?s1] st id
    by simp
  have j: "jobs s2 = (jobs s)(new_id amb s \<mapsto> new_job amb (name t))"
    using startTaskAsync_effect(1) [of amb "model_key (model cfg)" "modelId cfg" fullTask cwd "name t" lg ?s1] st id
    by simp
  have c: "jobIdCounter s2 = Suc (jobIdCounter s)"
    using startTaskAsync_effect(2) [of amb "model_key (model cfg)" "modelId cfg" fullTask cwd "name t" lg ?s1] st
    by simp
  have cl: "closures s2 = (closures s)(new_id amb s \<mapsto>
           \<lparr>cl_toolName = name t,
            cl_timeoutMs = resolveJobTimeoutMs (DYNAMIC_MCP_JOB_TIMEOUT_MS amb),
            cl_logger = lg,
            cl_timerArmed = (0 < resolveJobTimeoutMs (DYNAMIC_MCP_JOB_TIMEOUT_MS amb))\<rparr>)"
    using startTaskAsync_effect(4) [OF cc, of amb "modelId cfg" fullTask cwd "name t" lg ?s1] st id
    by simp
  show "jobs (snd (asyncToolHandler cfg t lg amb fullTask cwd s))
     = (jobs s)(new_id amb s \<mapsto> new_job amb (name t))"
    using st r j by (simp add: asyncToolHandler_def Let_def)
  show "jobIdCounter (snd (asyncToolHandler cfg t lg amb fullTask cwd s)) = Suc (jobIdCounter s)"
    using st r c by (simp add: asyncToolHandler_def Let_def)
  show "closures (snd (asyncToolHandler cfg t lg amb fullTask cwd s))
       = (closures s)(new_id amb s \<mapsto>
           \<lparr>cl_toolName = name t,
            cl_timeoutMs = resolveJobTimeoutMs (DYNAMIC_MCP_JOB_TIMEOUT_MS amb),
            cl_logger = lg,
            cl_timerArmed = (0 < resolveJobTimeoutMs (DYNAMIC_MCP_JOB_TIMEOUT_MS amb))\<rparr>)"
    using st r cl by (simp add: asyncToolHandler_def Let_def)
  show "\<exists>r. fst (asyncToolHandler cfg t lg amb fullTask cwd s) = Inr r \<and>
       (\<exists>msg. structuredContent r = JobHandleContent (new_id amb s) Running msg) \<and>
       \<not> isError r"
    using st r by (simp add: asyncToolHandler_def Let_def)
qed

lemma checkJobStatus_effect:
  "jobs (snd (checkJobStatus lg jobId s)) = jobs s"
  "jobIdCounter (snd (checkJobStatus lg jobId s)) = jobIdCounter s"
  "closures (snd (checkJobStatus lg jobId s)) = closures s"
  by (simp_all add: checkJobStatus_def Let_def split: option.splits)

lemma registeredHandler_cases:
  "registeredHandler exec cfg serverAsync t lg amb fullTask cwd s =
     (if resolveToolAsyncFlag t serverAsync
      then asyncToolHandler cfg t lg amb fullTask cwd s
      else syncToolHandler exec cfg t lg amb fullTask cwd s)"
  by (simp add: registeredHandler_def Let_def)

text \<open>What one step does to the registry and to the counter.\<close>

lemma step_jobs:
  "jobs (step s e) k = Some j' \<Longrightarrow>
     jobs s k = Some j'
     \<or> (\<exists>j. jobs s k = Some j \<and> status j = Running \<and> status j' \<noteq> Running
            \<and> result j' \<noteq> None \<and> timeoutMs j' = timeoutMs j)
     \<or> (id_counter k = Suc (jobIdCounter s) \<and> status j' = Running \<and> result j' = None
          \<and> jobIdCounter (step s e) = Suc (jobIdCounter s))"
proof (cases e)
  case (EvToolCall exec cfg serverAsync t lg amb fullTask cwd)
  assume a: "jobs (step s e) k = Some j'"
  show ?thesis
  proof (cases "resolveToolAsyncFlag t serverAsync")
    case True
    with a EvToolCall show ?thesis
      by (auto simp add: registeredHandler_cases asyncToolHandler_effect id_counter_new_id
          new_job_def split: if_splits)
  next
    case False
    with a EvToolCall show ?thesis
      by (simp add: registeredHandler_cases syncToolHandler_effect)
  qed
next
  case (EvStatusQuery lg jobId)
  assume "jobs (step s e) k = Some j'"
  with EvStatusQuery show ?thesis by (simp add: checkJobStatus_effect)
next
  case (EvTimeout jobId now)
  assume "jobs (step s e) k = Some j'"
  with EvTimeout show ?thesis
    by (auto simp add: timeoutCallback_effect split: option.splits if_splits)
next
  case (EvSettled jobId outcome now)
  assume "jobs (step s e) k = Some j'"
  with EvSettled show ?thesis
    using settled_status_terminal [of outcome]
    by (auto simp add: subprocessSettled_finalizeJob finalizeJob_effect
        split: option.splits if_splits)
next
  case (EvKill jobId)
  assume "jobs (step s e) k = Some j'"
  with EvKill show ?thesis by (simp split: if_splits)
qed

lemma step_jobs_keep:
  "jobs s k = Some j \<Longrightarrow>
     (\<exists>j'. jobs (step s e) k = Some j' \<and>
        (id_counter k \<le> jobIdCounter s \<longrightarrow>
           timeoutMs j' = timeoutMs j \<and> (status j \<noteq> Running \<longrightarrow> j' = j)))"
proof (cases e)
  case (EvToolCall exec cfg serverAsync t lg amb fullTask cwd)
  assume a: "jobs s k = Some j"
  show ?thesis
  proof (cases "resolveToolAsyncFlag t serverAsync")
    case True
    have "id_counter k \<le> jobIdCounter s \<Longrightarrow> k \<noteq> new_id amb s"
      using id_counter_new_id [of amb s] by auto
    with True a EvToolCall show ?thesis
      by (auto simp add: registeredHandler_cases asyncToolHandler_effect)
  next
    case False
    with a EvToolCall show ?thesis
      by (simp add: registeredHandler_cases syncToolHandler_effect)
  qed
next
  case (EvStatusQuery lg jobId)
  assume "jobs s k = Some j"
  with EvStatusQuery show ?thesis by (simp add: checkJobStatus_effect)
next
  case (EvTimeout jobId now)
  assume "jobs s k = Some j"
  with EvTimeout show ?thesis
    by (auto simp add: timeoutCallback_effect split: option.splits if_splits)
next
  case (EvSettled jobId outcome now)
  assume "jobs s k = Some j"
  with EvSettled show ?thesis
    by (auto simp add: subprocessSettled_finalizeJob finalizeJob_effect
        split: option.splits if_splits)
next
  case (EvKill jobId)
  assume "jobs s k = Some j"
  with EvKill show ?thesis by (simp split: if_splits)
qed

lemma step_handed:
  "(handed_jobId s e = [] \<and> jobIdCounter (step s e) = jobIdCounter s
      \<and> dom (jobs (step s e)) = dom (jobs s))
   \<or> (\<exists>k. handed_jobId s e = [k] \<and> id_counter k = Suc (jobIdCounter s)
          \<and> jobIdCounter (step s e) = Suc (jobIdCounter s)
          \<and> dom (jobs (step s e)) = insert k (dom (jobs s)))"
proof (cases e)
  case (EvToolCall exec cfg serverAsync t lg amb fullTask cwd)
  show ?thesis
  proof (cases "resolveToolAsyncFlag t serverAsync")
    case True
    obtain r msg where "fst (asyncToolHandler cfg t lg amb fullTask cwd s) = Inr r"
      and "structuredContent r = JobHandleContent (new_id amb s) Running msg"
      using asyncToolHandler_effect(4) [of cfg t lg amb fullTask cwd s] by blast
    with True EvToolCall show ?thesis
      by (simp add: registeredHandler_cases asyncToolHandler_effect id_counter_new_id)
  next
    case False
    then show ?thesis using EvToolCall
      by (simp add: registeredHandler_cases syncToolHandler_effect syncToolHandler_def Let_def
          split: sum.splits)
  qed
next
  case (EvStatusQuery lg jobId)
  then show ?thesis by (simp add: checkJobStatus_effect)
next
  case (EvTimeout jobId now)
  then show ?thesis
    by (auto simp add: timeoutCallback_effect split: option.splits if_splits)
next
  case (EvSettled jobId outcome now)
  then show ?thesis
    by (auto simp add: subprocessSettled_finalizeJob finalizeJob_effect
        split: option.splits if_splits)
next
  case (EvKill jobId)
  then show ?thesis by simp
qed

lemma step_closures:
  "closures (step s e) k = Some cl' \<Longrightarrow>
     (\<exists>cl. closures s k = Some cl \<and> cl_timeoutMs cl' = cl_timeoutMs cl)
     \<or> (\<exists>j'. jobs (step s e) k = Some j' \<and> timeoutMs j' = cl_timeoutMs cl'
            \<and> id_counter k = Suc (jobIdCounter s))"
proof (cases e)
  case (EvToolCall exec cfg serverAsync t lg amb fullTask cwd)
  assume a: "closures (step s e) k = Some cl'"
  show ?thesis
  proof (cases "resolveToolAsyncFlag t serverAsync")
    case True
    with a EvToolCall show ?thesis
      by (auto simp add: registeredHandler_cases asyncToolHandler_effect id_counter_new_id
          new_job_def split: if_splits)
  next
    case False
    with a EvToolCall show ?thesis
      by (simp add: registeredHandler_cases syncToolHandler_effect)
  qed
next
  case (EvStatusQuery lg jobId)
  assume "closures (step s e) k = Some cl'"
  with EvStatusQuery show ?thesis by (simp add: checkJobStatus_effect)
next
  case (EvTimeout jobId now)
  assume "closures (step s e) k = Some cl'"
  with EvTimeout show ?thesis
    by (auto simp add: timeoutCallback_effect split: option.splits if_splits)
next
  case (EvSettled jobId outcome now)
  assume "closures (step s e) k = Some cl'"
  with EvSettled show ?thesis
    using finalizeJob_closures [of now jobId _ "settled_status outcome" "settled_result outcome" s k cl']
    by (auto simp add: subprocessSettled_finalizeJob split: option.splits if_splits)
next
  case (EvKill jobId)
  assume "closures (step s e) k = Some cl'"
  with EvKill show ?thesis by (simp split: if_splits)
qed

lemma run_Nil [simp]: "run s [] = s"
  by (simp add: run_def)

lemma run_Cons [simp]: "run s (e # es) = run (step s e) es"
  by (simp add: run_def)

lemma run_append: "run s (es @ es') = run (run s es) es'"
  by (simp add: run_def)

lemma counter_mono: "jobIdCounter s \<le> jobIdCounter (step s e)"
  using step_handed [of s e] by auto

lemma ids_bounded_step: "ids_bounded s \<Longrightarrow> ids_bounded (step s e)"
  unfolding ids_bounded_def
proof (intro allI impI)
  fix k j'
  assume b: "\<forall>jobId j. jobs s jobId = Some j \<longrightarrow> id_counter jobId \<le> jobIdCounter s"
    and a: "jobs (step s e) k = Some j'"
  from step_jobs [OF a] b counter_mono [of s e]
  show "id_counter k \<le> jobIdCounter (step s e)"
    by (metis le_trans order_refl)
qed

lemma result_inv_step: "result_inv s \<Longrightarrow> result_inv (step s e)"
  unfolding result_inv_def
proof (intro allI impI)
  fix k j'
  assume b: "\<forall>jobId j. jobs s jobId = Some j \<longrightarrow> (result j = None) = (status j = Running)"
    and a: "jobs (step s e) k = Some j'"
  from step_jobs [OF a] b show "(result j' = None) = (status j' = Running)"
    by blast
qed

lemma closure_inv_step:
  assumes "ids_bounded s" and "closure_inv s"
  shows "closure_inv (step s e)"
  unfolding closure_inv_def
proof (intro allI impI)
  fix k cl'
  assume a: "closures (step s e) k = Some cl'"
  from step_closures [OF a]
  show "\<exists>j. jobs (step s e) k = Some j \<and> timeoutMs j = cl_timeoutMs cl'"
  proof
    assume "\<exists>cl. closures s k = Some cl \<and> cl_timeoutMs cl' = cl_timeoutMs cl"
    then obtain cl where cl: "closures s k = Some cl" "cl_timeoutMs cl' = cl_timeoutMs cl"
      by blast
    with assms(2) obtain j where j: "jobs s k = Some j" "timeoutMs j = cl_timeoutMs cl"
      unfolding closure_inv_def by blast
    from assms(1) j(1) have "id_counter k \<le> jobIdCounter s"
      unfolding ids_bounded_def by blast
    with step_jobs_keep [OF j(1), of e] j(2) cl(2) show ?thesis by auto
  next
    assume "\<exists>j'. jobs (step s e) k = Some j' \<and> timeoutMs j' = cl_timeoutMs cl'
            \<and> id_counter k = Suc (jobIdCounter s)"
    then show ?thesis by blast
  qed
qed

lemma reachable_inv_initial: "reachable_inv initial_state"
  by (simp add: reachable_inv_def ids_bounded_def result_inv_def closure_inv_def
      initial_state_def)

lemma reachable_inv_run: "reachable_inv s \<Longrightarrow> reachable_inv (run s es)"
proof (induction es arbitrary: s)
  case Nil
  then show ?case by simp
next
  case (Cons e es)
  from Cons.prems have "reachable_inv (step s e)"
    by (simp add: reachable_inv_def ids_bounded_step result_inv_step closure_inv_step)
  then show ?case using Cons.IH by simp
qed

lemma run_terminal_frozen:
  "ids_bounded s \<Longrightarrow> jobs s k = Some j \<Longrightarrow> status j \<noteq> Running
     \<Longrightarrow> jobs (run s es) k = Some j"
proof (induction es arbitrary: s)
  case Nil
  then show ?case by simp
next
  case (Cons e es)
  from Cons.prems have "id_counter k \<le> jobIdCounter s"
    unfolding ids_bounded_def by blast
  with step_jobs_keep [OF Cons.prems(2), of e] Cons.prems(3)
  have "jobs (step s e) k = Some j" by auto
  with Cons.IH [of "step s e"] Cons.prems ids_bounded_step show ?case by simp
qed

lemma created_ids_gt: "x \<in> set (created_ids s es) \<Longrightarrow> jobIdCounter s < id_counter x"
proof (induction es arbitrary: s)
  case Nil
  then show ?case by simp
next
  case (Cons e es)
  from Cons.prems consider "x \<in> set (handed_jobId s e)" | "x \<in> set (created_ids (step s e) es)"
    by auto
  then show ?case
  proof cases
    case 1
    with step_handed [of s e] show ?thesis by auto
  next
    case 2
    from Cons.IH [OF 2] counter_mono [of s e] show ?thesis by simp
  qed
qed

lemma created_ids_distinct: "distinct (created_ids s es)"
proof (induction es arbitrary: s)
  case Nil
  then show ?case by simp
next
  case (Cons e es)
  from step_handed [of s e] show ?case
  proof
    assume "handed_jobId s e = [] \<and> jobIdCounter (step s e) = jobIdCounter s
      \<and> dom (jobs (step s e)) = dom (jobs s)"
    then show ?thesis using Cons.IH by simp
  next
    assume "\<exists>k. handed_jobId s e = [k] \<and> id_counter k = Suc (jobIdCounter s)
          \<and> jobIdCounter (step s e) = Suc (jobIdCounter s)
          \<and> dom (jobs (step s e)) = insert k (dom (jobs s))"
    then obtain k where k: "handed_jobId s e = [k]" "id_counter k = Suc (jobIdCounter s)"
      "jobIdCounter (step s e) = Suc (jobIdCounter s)" by blast
    have "k \<notin> set (created_ids (step s e) es)"
      using created_ids_gt [of k "step s e" es] k by auto
    with k Cons.IH show ?thesis by simp
  qed
qed

lemma dom_jobs_run: "dom (jobs (run s es)) = dom (jobs s) \<union> set (created_ids s es)"
proof (induction es arbitrary: s)
  case Nil
  then show ?case by simp
next
  case (Cons e es)
  from step_handed [of s e] have "dom (jobs (step s e)) = dom (jobs s) \<union> set (handed_jobId s e)"
    by auto
  with Cons.IH [of "step s e"] show ?case by auto
qed

lemmas demo_defs = demo_amb_def demo_tool_def demo_cfg_def demo_exec_def demo_call_def

lemma demo_id: "new_id demo_amb initial_state = ''job_5_1''"
  by (simp add: new_id_def generateJobId_def demo_defs initial_state_def print_eval)

lemma demo_timeout: "resolveJobTimeoutMs (Some (js ''0'')) = 1200000"
  by (simp add: resolveJobTimeoutMs_def nullish_def DEFAULT_JOB_TIMEOUT_MS_def parse_eval)

lemma demo_state1:
  "jobs (step initial_state demo_call) ''job_5_1'' =
     Some \<lparr>status = Running, toolName = ''review'', startedAt = ''T0'', result = None,
           timeoutMs = 1200000, completedAt = None, timedOut = None\<rparr>"
  "closures (step initial_state demo_call) ''job_5_1'' =
     Some \<lparr>cl_toolName = ''review'', cl_timeoutMs = 1200000, cl_logger = None,
           cl_timerArmed = True\<rparr>"
  using demo_id demo_timeout
  by (simp_all add: demo_call_def registeredHandler_cases resolveToolAsyncFlag_def
      asyncToolHandler_effect new_job_def demo_tool_def demo_amb_def)

lemma demo_state2:
  "jobs (step (step initial_state demo_call) (EvTimeout ''job_5_1'' ''T1'')) ''job_5_1'' =
     Some \<lparr>status = Failed, toolName = ''review'', startedAt = ''T0'',
           result = Some \<lparr>exitCode = - 1, stdout = [], stderr = ''Timed out after 1200000ms''\<rparr>,
           timeoutMs = 1200000, completedAt = Some ''T1'', timedOut = Some True\<rparr>"
  using demo_state1
  by (simp add: timeoutCallback_effect print_eval)

section \<open>The life cycle of a job\<close>

text \<open>
  Claim C1. Let \<open>s\<close> be a state that a run of the server reaches from its start and let
  \<open>j\<close> be the record of job \<open>k\<close> in it. Whatever happens next, the job stays in the
  registry, and if its record changes then \<open>j\<close> was running and the new record is
  completed or failed. Once \<open>j\<close> is completed or failed, the record stays the same in
  every continuation of the run, and each finalization attempt leaves it as it is:
  \<open>finalizeJob\<close> with any status and result, the callbacks of the subprocess with any
  outcome, and the timeout callback. So the status changes at most once and never goes
  back to running.
\<close>

theorem terminal_job_record_is_final:
  assumes "s = run initial_state es" and "jobs s k = Some j"
  shows "(\<forall>e j'. jobs (step s e) k = Some j' \<and> j' \<noteq> j \<longrightarrow>
            status j = Running \<and> (status j' = Completed \<or> status j' = Failed))
       \<and> (\<forall>e. \<exists>j'. jobs (step s e) k = Some j')
       \<and> (status j \<noteq> Running \<longrightarrow>
            (\<forall>es'. jobs (run s es') k = Some j)
          \<and> (\<forall>now jobId lg st res. jobs (finalizeJob now jobId lg st res s) k = Some j)
          \<and> (\<forall>now jobId lg outcome. jobs (subprocessSettled now jobId lg outcome s) k = Some j)
          \<and> (\<forall>now jobId tMs lg. jobs (timeoutCallback now jobId tMs lg s) k = Some j))"
proof -
  have inv: "ids_bounded s"
    using reachable_inv_run [OF reachable_inv_initial, of es] assms(1)
    by (simp add: reachable_inv_def)
  then have bound: "id_counter k \<le> jobIdCounter s"
    using assms(2) unfolding ids_bounded_def by blast
  have a: "\<forall>e j'. jobs (step s e) k = Some j' \<and> j' \<noteq> j \<longrightarrow>
            status j = Running \<and> (status j' = Completed \<or> status j' = Failed)"
  proof (intro allI impI)
    fix e j'
    assume h: "jobs (step s e) k = Some j' \<and> j' \<noteq> j"
    then have "\<exists>j0. jobs s k = Some j0 \<and> status j0 = Running \<and> status j' \<noteq> Running"
      using step_jobs [of s e k j'] assms(2) bound by auto
    then show "status j = Running \<and> (status j' = Completed \<or> status j' = Failed)"
      using assms(2) by (cases "status j'") auto
  qed
  have b: "\<forall>e. \<exists>j'. jobs (step s e) k = Some j'"
    using step_jobs_keep [OF assms(2)] by blast
  have c: "status j \<noteq> Running \<longrightarrow>
            (\<forall>es'. jobs (run s es') k = Some j)
          \<and> (\<forall>now jobId lg st res. jobs (finalizeJob now jobId lg st res s) k = Some j)
          \<and> (\<forall>now jobId lg outcome. jobs (subprocessSettled now jobId lg outcome s) k = Some j)
          \<and> (\<forall>now jobId tMs lg. jobs (timeoutCallback now jobId tMs lg s) k = Some j)"
  proof
    assume t: "status j \<noteq> Running"
    have c1: "\<forall>es'. jobs (run s es') k = Some j"
      using run_terminal_frozen [OF inv assms(2) t] by blast
    have c2: "\<forall>now jobId lg st res. jobs (finalizeJob now jobId lg st res s) k = Some j"
      using assms(2) t by (auto simp add: finalizeJob_effect split: option.splits)
    have c3: "\<forall>now jobId lg outcome. jobs (subprocessSettled now jobId lg outcome s) k = Some j"
      using c2 by (simp add: subprocessSettled_finalizeJob)
    have c4: "\<forall>now jobId tMs lg. jobs (timeoutCallback now jobId tMs lg s) k = Some j"
      using assms(2) t by (auto simp add: timeoutCallback_effect split: option.splits)
    from c1 c2 c3 c4
    show "(\<forall>es'. jobs (run s es') k = Some j)
          \<and> (\<forall>now jobId lg st res. jobs (finalizeJob now jobId lg st res s) k = Some j)
          \<and> (\<forall>now jobId lg outcome. jobs (subprocessSettled now jobId lg outcome s) k = Some j)
          \<and> (\<forall>now jobId tMs lg. jobs (timeoutCallback now jobId tMs lg s) k = Some j)"
      by (intro conjI)
  qed
  from a b c show ?thesis by (intro conjI)
qed

theorem terminal_job_record_is_final_witness:
  "jobs (run initial_state [demo_call]) ''job_5_1'' = Some demo_running
   \<and> jobs (step (run initial_state [demo_call]) (EvTimeout ''job_5_1'' ''T1'')) ''job_5_1''
       = Some demo_timed_out
   \<and> demo_timed_out \<noteq> demo_running
   \<and> status demo_running = Running
   \<and> (status demo_timed_out = Completed \<or> status demo_timed_out = Failed)
   \<and> jobs (run initial_state [demo_call, EvTimeout ''job_5_1'' ''T1'']) ''job_5_1''
       = Some demo_timed_out
   \<and> status demo_timed_out \<noteq> Running
   \<and> jobs (run (run initial_state [demo_call, EvTimeout ''job_5_1'' ''T1''])
        [EvSettled ''job_5_1'' (Resolved (Some 0) (Some ''out'') None) ''T2'',
         EvTimeout ''job_5_1'' ''T3'', demo_call]) ''job_5_1'' = Some demo_timed_out
   \<and> jobs (subprocessSettled ''T2'' ''job_5_1'' None (Resolved (Some 0) (Some ''out'') None)
        (run initial_state [demo_call, EvTimeout ''job_5_1'' ''T1''])) ''job_5_1''
       = Some demo_timed_out"
proof -
  let ?s1 = "run initial_state [demo_call]"
  let ?s = "run initial_state [demo_call, EvTimeout ''job_5_1'' ''T1'']"
  have r: "jobs ?s1 ''job_5_1'' = Some demo_running"
    using demo_state1(1) by (simp add: demo_running_def)
  have r': "jobs (step ?s1 (EvTimeout ''job_5_1'' ''T1'')) ''job_5_1'' = Some demo_timed_out"
    using demo_state2 by (simp add: demo_timed_out_def)
  have ne: "demo_timed_out \<noteq> demo_running"
    by (simp add: demo_timed_out_def demo_running_def)
  note S = terminal_job_record_is_final [OF refl r, THEN conjunct1, rule_format,
      OF conjI [OF r' ne]]
  have j: "jobs ?s ''job_5_1'' = Some demo_timed_out"
    using demo_state2 by (simp add: demo_timed_out_def)
  have t: "status demo_timed_out \<noteq> Running"
    by (simp add: demo_timed_out_def)
  note T = terminal_job_record_is_final [OF refl j, THEN conjunct2, THEN conjunct2, rule_format,
      OF t]
  from r r' ne S [THEN conjunct1] S [THEN conjunct2] j t T [THEN conjunct1, rule_format]
    T [THEN conjunct2, THEN conjunct2, THEN conjunct1, rule_format]
  show ?thesis by (intro conjI)
qed

text \<open>
  Claim C2. In a reachable state, when the pending timer of a running job \<open>k\<close> fires, the
  record of the job becomes failed with \<open>timedOut\<close> set, \<open>completedAt\<close> stamped and the
  result \<open>{exitCode: -1, stdout: "", stderr: "Timed out after <timeoutMs>ms"}\<close>, where
  \<open>timeoutMs\<close> is the budget stored in the job. When the subprocess settles afterwards,
  with any outcome and followed by any events, the record is still the same.
\<close>

theorem timeout_finalizes_running_job:
  assumes "s = run initial_state es"
    and "closures s k = Some cl" and "cl_timerArmed cl"
    and "jobs s k = Some j" and "status j = Running"
  shows "jobs (step s (EvTimeout k now)) k =
           Some (j\<lparr>status := Failed, completedAt := Some now,
                   result := Some \<lparr>exitCode = - 1, stdout = [],
                     stderr = ''Timed out after '' @ string_of_int (timeoutMs j) @ ''ms''\<rparr>,
                   timedOut := Some True\<rparr>)
       \<and> (\<forall>outcome now' es'.
             jobs (run (step s (EvTimeout k now)) (EvSettled k outcome now' # es')) k =
               jobs (step s (EvTimeout k now)) k)"
proof -
  let ?J = "j\<lparr>status := Failed, completedAt := Some now,
                   result := Some \<lparr>exitCode = - 1, stdout = [],
                     stderr = ''Timed out after '' @ string_of_int (timeoutMs j) @ ''ms''\<rparr>,
                   timedOut := Some True\<rparr>"
  have inv: "reachable_inv s"
    using reachable_inv_run [OF reachable_inv_initial, of es] assms(1) by simp
  then have "timeoutMs j = cl_timeoutMs cl"
    using assms(2,4) unfolding reachable_inv_def closure_inv_def by fastforce
  then have a: "jobs (step s (EvTimeout k now)) k = Some ?J"
    using assms(2-5) by (simp add: timeoutCallback_effect)
  from inv have "ids_bounded s" by (simp add: reachable_inv_def)
  then have "ids_bounded (step s (EvTimeout k now))"
    by (rule ids_bounded_step)
  then have fr: "\<And>es'. jobs (run (step s (EvTimeout k now)) es') k = Some ?J"
    using run_terminal_frozen [OF _ a] by simp
  have b: "\<forall>outcome now' es'.
             jobs (run (step s (EvTimeout k now)) (EvSettled k outcome now' # es')) k =
               jobs (step s (EvTimeout k now)) k"
    by (simp only: fr a) simp
  from a b show ?thesis by (rule conjI)
qed

theorem timeout_finalizes_running_job_witness:
  "closures (run initial_state [demo_call]) ''job_5_1'' =
     Some \<lparr>cl_toolName = ''review'', cl_timeoutMs = 1200000, cl_logger = None,
           cl_timerArmed = True\<rparr>
   \<and> jobs (run initial_state [demo_call]) ''job_5_1'' =
     Some \<lparr>status = Running, toolName = ''review'', startedAt = ''T0'', result = None,
           timeoutMs = 1200000, completedAt = None, timedOut = None\<rparr>
   \<and> jobs (step (run initial_state [demo_call]) (EvTimeout ''job_5_1'' ''T1'')) ''job_5_1'' =
     Some \<lparr>status = Failed, toolName = ''review'', startedAt = ''T0'',
           result = Some \<lparr>exitCode = - 1, stdout = [], stderr = ''Timed out after 1200000ms''\<rparr>,
           timeoutMs = 1200000, completedAt = Some ''T1'', timedOut = Some True\<rparr>
   \<and> jobs (run (step (run initial_state [demo_call]) (EvTimeout ''job_5_1'' ''T1''))
        [EvSettled ''job_5_1'' (Resolved (Some 0) (Some ''out'') None) ''T2'']) ''job_5_1'' =
     Some \<lparr>status = Failed, toolName = ''review'', startedAt = ''T0'',
           result = Some \<lparr>exitCode = - 1, stdout = [], stderr = ''Timed out after 1200000ms''\<rparr>,
           timeoutMs = 1200000, completedAt = Some ''T1'', timedOut = Some True\<rparr>"
proof -
  let ?s = "run initial_state [demo_call]"
  have c: "closures ?s ''job_5_1'' =
     Some \<lparr>cl_toolName = ''review'', cl_timeoutMs = 1200000, cl_logger = None,
           cl_timerArmed = True\<rparr>"
    using demo_state1(2) by simp
  have j: "jobs ?s ''job_5_1'' =
     Some \<lparr>status = Running, toolName = ''review'', startedAt = ''T0'', result = None,
           timeoutMs = 1200000, completedAt = None, timedOut = None\<rparr>"
    using demo_state1(1) by simp
  have p: "string_of_int 1200000 = ''1200000''" by (simp add: print_eval)
  note T = timeout_finalizes_running_job [OF refl c _ j, of "''T1''"]
  have t1: "jobs (step ?s (EvTimeout ''job_5_1'' ''T1'')) ''job_5_1'' =
     Some \<lparr>status = Failed, toolName = ''review'', startedAt = ''T0'',
           result = Some \<lparr>exitCode = - 1, stdout = [], stderr = ''Timed out after 1200000ms''\<rparr>,
           timeoutMs = 1200000, completedAt = Some ''T1'', timedOut = Some True\<rparr>"
    using T [THEN conjunct1] p by simp
  have t2: "jobs (run (step ?s (EvTimeout ''job_5_1'' ''T1''))
        [EvSettled ''job_5_1'' (Resolved (Some 0) (Some ''out'') None) ''T2'']) ''job_5_1'' =
      jobs (step ?s (EvTimeout ''job_5_1'' ''T1'')) ''job_5_1''"
    using T [THEN conjunct2, rule_format, of "Resolved (Some 0) (Some ''out'') None" "''T2''" "[]"]
    by simp
  from c j t1 t2 show ?thesis by (simp only:)
qed

section \<open>Dispatch\<close>

lemma executeTask_result:
  "CLI_CONFIG mdl = Some cc \<Longrightarrow>
     executeTask exec amb mdl mId task cwd =
       Inr (settled_result (exec (command cc) (spawnArgs cc mId task) (spawnCwd cwd amb)))"
  by (simp add: executeTask_def settled_result_def split: exec_outcome.splits)

text \<open>
  Claim C3. The flag that selects the handler of a tool is the tool's own \<open>async\<close> when it
  is a boolean and the default of the server otherwise. When the flag is false, the
  handler returns the result of \<open>executeTask\<close> as its structured content, and the
  response is marked as an error exactly when the exit code is not 0. When the flag is
  true, the handler returns a handle \<open>{jobId, status: "running", message}\<close> that is not
  marked as an error, the job of that identifier is in the registry and running, and
  neither the response nor the state depends on what the subprocess does.
\<close>

theorem dispatch_by_resolved_async_flag:
  "resolveToolAsyncFlag t serverAsync = (case async t of Some b \<Rightarrow> b | None \<Rightarrow> serverAsync)
   \<and> (\<not> resolveToolAsyncFlag t serverAsync \<longrightarrow>
        (\<exists>res txt.
           executeTask exec amb (model_key (model cfg)) (modelId cfg) fullTask cwd = Inr res
           \<and> fst (registeredHandler exec cfg serverAsync t lg amb fullTask cwd s) =
               Inr \<lparr>content = txt, structuredContent = TaskResultContent res,
                    isError = (exitCode res \<noteq> 0)\<rparr>))
   \<and> (resolveToolAsyncFlag t serverAsync \<longrightarrow>
        (\<exists>jobId msg txt.
           fst (registeredHandler exec cfg serverAsync t lg amb fullTask cwd s) =
             Inr \<lparr>content = txt, structuredContent = JobHandleContent jobId Running msg,
                  isError = False\<rparr>
           \<and> map_option status
                (jobs (snd (registeredHandler exec cfg serverAsync t lg amb fullTask cwd s)) jobId)
               = Some Running
           \<and> (\<forall>exec'. registeredHandler exec' cfg serverAsync t lg amb fullTask cwd s =
                 registeredHandler exec cfg serverAsync t lg amb fullTask cwd s)))"
proof -
  have a: "resolveToolAsyncFlag t serverAsync =
            (case async t of Some b \<Rightarrow> b | None \<Rightarrow> serverAsync)"
    by (simp add: resolveToolAsyncFlag_def)
  have b: "\<not> resolveToolAsyncFlag t serverAsync \<longrightarrow>
        (\<exists>res txt.
           executeTask exec amb (model_key (model cfg)) (modelId cfg) fullTask cwd = Inr res
           \<and> fst (registeredHandler exec cfg serverAsync t lg amb fullTask cwd s) =
               Inr \<lparr>content = txt, structuredContent = TaskResultContent res,
                    isError = (exitCode res \<noteq> 0)\<rparr>)"
  proof
    assume f: "\<not> resolveToolAsyncFlag t serverAsync"
    obtain cc where cc: "CLI_CONFIG (model_key (model cfg)) = Some cc"
      using CLI_CONFIG_model_key by blast
    then obtain res where
      res: "executeTask exec amb (model_key (model cfg)) (modelId cfg) fullTask cwd = Inr res"
      using executeTask_result by blast
    with f show "\<exists>res txt.
           executeTask exec amb (model_key (model cfg)) (modelId cfg) fullTask cwd = Inr res
           \<and> fst (registeredHandler exec cfg serverAsync t lg amb fullTask cwd s) =
               Inr \<lparr>content = txt, structuredContent = TaskResultContent res,
                    isError = (exitCode res \<noteq> 0)\<rparr>"
      by (simp add: registeredHandler_cases syncToolHandler_def Let_def)
  qed
  have c: "resolveToolAsyncFlag t serverAsync \<longrightarrow>
        (\<exists>jobId msg txt.
           fst (registeredHandler exec cfg serverAsync t lg amb fullTask cwd s) =
             Inr \<lparr>content = txt, structuredContent = JobHandleContent jobId Running msg,
                  isError = False\<rparr>
           \<and> map_option status
                (jobs (snd (registeredHandler exec cfg serverAsync t lg amb fullTask cwd s)) jobId)
               = Some Running
           \<and> (\<forall>exec'. registeredHandler exec' cfg serverAsync t lg amb fullTask cwd s =
                 registeredHandler exec cfg serverAsync t lg amb fullTask cwd s))"
  proof
    assume f: "resolveToolAsyncFlag t serverAsync"
    obtain r msg where r: "fst (asyncToolHandler cfg t lg amb fullTask cwd s) = Inr r"
      "structuredContent r = JobHandleContent (new_id amb s) Running msg" "\<not> isError r"
      using asyncToolHandler_effect(4) [of cfg t lg amb fullTask cwd s] by blast
    have "r = \<lparr>content = content r, structuredContent = JobHandleContent (new_id amb s) Running msg,
                  isError = False\<rparr>"
      using r(2,3) by (cases r) simp
    with r(1) f
    have 1: "fst (registeredHandler exec cfg serverAsync t lg amb fullTask cwd s) =
             Inr \<lparr>content = content r,
                  structuredContent = JobHandleContent (new_id amb s) Running msg,
                  isError = False\<rparr>"
      by (simp add: registeredHandler_cases)
    have 2: "map_option status
                (jobs (snd (registeredHandler exec cfg serverAsync t lg amb fullTask cwd s))
                   (new_id amb s)) = Some Running"
      using f by (simp add: registeredHandler_cases asyncToolHandler_effect new_job_def)
    have 3: "\<forall>exec'. registeredHandler exec' cfg serverAsync t lg amb fullTask cwd s =
                 registeredHandler exec cfg serverAsync t lg amb fullTask cwd s"
      using f by (simp add: registeredHandler_cases)
    from 1 2 3 show "\<exists>jobId msg txt.
           fst (registeredHandler exec cfg serverAsync t lg amb fullTask cwd s) =
             Inr \<lparr>content = txt, structuredContent = JobHandleContent jobId Running msg,
                  isError = False\<rparr>
           \<and> map_option status
                (jobs (snd (registeredHandler exec cfg serverAsync t lg amb fullTask cwd s)) jobId)
               = Some Running
           \<and> (\<forall>exec'. registeredHandler exec' cfg serverAsync t lg amb fullTask cwd s =
                 registeredHandler exec cfg serverAsync t lg amb fullTask cwd s)"
      by blast
  qed
  from a b c show ?thesis by (intro conjI)
qed

theorem dispatch_by_resolved_async_flag_witness:
  "\<not> resolveToolAsyncFlag demo_sync_tool False
   \<and> (\<exists>res txt.
         executeTask demo_exec demo_amb (model_key (model demo_cfg)) (modelId demo_cfg)
           ''task'' None = Inr res
         \<and> fst (registeredHandler demo_exec demo_cfg False demo_sync_tool None demo_amb
                  ''task'' None initial_state) =
             Inr \<lparr>content = txt, structuredContent = TaskResultContent res,
                  isError = (exitCode res \<noteq> 0)\<rparr>)
   \<and> resolveToolAsyncFlag demo_tool False
   \<and> (\<exists>jobId msg txt.
         fst (registeredHandler demo_exec demo_cfg False demo_tool None demo_amb
                ''task'' None initial_state) =
           Inr \<lparr>content = txt, structuredContent = JobHandleContent jobId Running msg,
                isError = False\<rparr>
         \<and> map_option status
              (jobs (snd (registeredHandler demo_exec demo_cfg False demo_tool None demo_amb
                 ''task'' None initial_state)) jobId) = Some Running
           \<and> (\<forall>exec'. registeredHandler exec' demo_cfg False demo_tool None demo_amb
                 ''task'' None initial_state =
                 registeredHandler demo_exec demo_cfg False demo_tool None demo_amb
                 ''task'' None initial_state))"
proof -
  have f1: "\<not> resolveToolAsyncFlag demo_sync_tool False"
    by (simp add: resolveToolAsyncFlag_def demo_sync_tool_def)
  have f2: "resolveToolAsyncFlag demo_tool False"
    by (simp add: resolveToolAsyncFlag_def demo_tool_def)
  note T1 = dispatch_by_resolved_async_flag [of demo_sync_tool False demo_exec demo_amb demo_cfg
      "''task''" None None initial_state, THEN conjunct2, THEN conjunct1, rule_format, OF f1]
  note T2 = dispatch_by_resolved_async_flag [of demo_tool False demo_exec demo_amb demo_cfg
      "''task''" None None initial_state, THEN conjunct2, THEN conjunct2, rule_format, OF f2]
  from f1 T1 f2 T2 show ?thesis by (intro conjI)
qed

section \<open>The timeout supervisor and the override\<close>

text \<open>
  Claim C4 says that with the override set to zero or to a negative number no timer is
  attached and the job runs unbounded. It fails: with the override \<open>0\<close>, and with
  \<open>-5\<close>, \<open>startTaskAsync\<close> attaches a timer of 1,200,000 ms, and when that timer fires
  the job is failed.
\<close>

theorem zero_override_attaches_timer:
  "DYNAMIC_MCP_JOB_TIMEOUT_MS demo_amb = Some (js ''0'')
   \<and> parseInt10 (js ''0'') = Num 0
   \<and> fst (startTaskAsync demo_amb ''gemini'' None ''task'' None ''review'' None initial_state)
       = Inr ''job_5_1''
   \<and> closures (snd (startTaskAsync demo_amb ''gemini'' None ''task'' None ''review'' None
        initial_state)) ''job_5_1''
       = Some \<lparr>cl_toolName = ''review'', cl_timeoutMs = 1200000, cl_logger = None,
               cl_timerArmed = True\<rparr>
   \<and> parseInt10 (js ''-5'') = Num (- 5)
   \<and> closures (snd (startTaskAsync (demo_amb\<lparr>DYNAMIC_MCP_JOB_TIMEOUT_MS := Some (js ''-5'')\<rparr>)
        ''gemini'' None ''task'' None ''review'' None initial_state)) ''job_5_1''
       = Some \<lparr>cl_toolName = ''review'', cl_timeoutMs = 1200000, cl_logger = None,
               cl_timerArmed = True\<rparr>
   \<and> map_option status
        (jobs (run initial_state [demo_call, EvTimeout ''job_5_1'' ''T1'']) ''job_5_1'')
       = Some Failed"
proof -
  have cc: "CLI_CONFIG ''gemini'' = Some \<lparr>command = ''gemini'', baseArgs = [''-y'', ''-p'']\<rparr>"
    by (simp add: CLI_CONFIG_def)
  have id2: "new_id (demo_amb\<lparr>DYNAMIC_MCP_JOB_TIMEOUT_MS := Some (js ''-5'')\<rparr>) initial_state
              = ''job_5_1''"
    by (simp add: new_id_def generateJobId_def demo_defs initial_state_def print_eval)
  have t2: "resolveJobTimeoutMs (Some (js ''-5'')) = 1200000"
    by (simp add: resolveJobTimeoutMs_def nullish_def DEFAULT_JOB_TIMEOUT_MS_def parse_eval)
  have 1: "DYNAMIC_MCP_JOB_TIMEOUT_MS demo_amb = Some (js ''0'')" by (simp add: demo_amb_def)
  have 2: "parseInt10 (js ''0'') = Num 0" by (simp add: parse_eval)
  have 3: "fst (startTaskAsync demo_amb ''gemini'' None ''task'' None ''review'' None
             initial_state) = Inr ''job_5_1''"
    using startTaskAsync_effect(3) [OF cc] demo_id by simp
  have 4: "closures (snd (startTaskAsync demo_amb ''gemini'' None ''task'' None ''review'' None
        initial_state)) ''job_5_1''
       = Some \<lparr>cl_toolName = ''review'', cl_timeoutMs = 1200000, cl_logger = None,
               cl_timerArmed = True\<rparr>"
    using demo_id demo_timeout 1 by (simp add: startTaskAsync_effect(4) [OF cc])
  have 5: "parseInt10 (js ''-5'') = Num (- 5)" by (simp add: parse_eval)
  have 6: "closures (snd (startTaskAsync (demo_amb\<lparr>DYNAMIC_MCP_JOB_TIMEOUT_MS := Some (js ''-5'')\<rparr>)
        ''gemini'' None ''task'' None ''review'' None initial_state)) ''job_5_1''
       = Some \<lparr>cl_toolName = ''review'', cl_timeoutMs = 1200000, cl_logger = None,
               cl_timerArmed = True\<rparr>"
    using id2 t2 by (simp add: startTaskAsync_effect(4) [OF cc])
  have 7: "map_option status
        (jobs (run initial_state [demo_call, EvTimeout ''job_5_1'' ''T1'']) ''job_5_1'')
       = Some Failed"
    using demo_state2 by simp
  from 1 2 3 4 5 6 7 show ?thesis by (intro conjI)
qed

text \<open>
  Claim C4, amended. For every value of the override, a job started for a model that is
  a key of \<open>CLI_CONFIG\<close>, and so every job that the handler of an asynchronous tool
  starts, gets a pending timeout timer whose budget is the resolved one, which is
  positive; when the override parses to zero or to a negative number, as the numeral of
  every such integer does, the budget of the timer is the default of 1,200,000 ms.
\<close>

theorem timeout_timer_attached_for_every_override:
  "(\<forall>cc. CLI_CONFIG mdl = Some cc \<longrightarrow>
      (\<exists>jobId cl.
           fst (startTaskAsync amb mdl mId task cwd tName lg s) = Inr jobId
         \<and> closures (snd (startTaskAsync amb mdl mId task cwd tName lg s)) jobId = Some cl
         \<and> cl_timerArmed cl
         \<and> 0 < cl_timeoutMs cl
         \<and> cl_timeoutMs cl = resolveJobTimeoutMs (DYNAMIC_MCP_JOB_TIMEOUT_MS amb)
         \<and> (\<forall>v n. DYNAMIC_MCP_JOB_TIMEOUT_MS amb = Some v \<and> parseInt10 v = Num n \<and> n \<le> 0
               \<longrightarrow> cl_timeoutMs cl = 1200000)
         \<and> (\<forall>i. DYNAMIC_MCP_JOB_TIMEOUT_MS amb = Some (js (string_of_int i)) \<and> i \<le> 0
               \<longrightarrow> cl_timeoutMs cl = 1200000)))
   \<and> (\<exists>jobId cl r msg.
           fst (asyncToolHandler cfg t lg amb fullTask cwd s) = Inr r
         \<and> structuredContent r = JobHandleContent jobId Running msg
         \<and> closures (snd (asyncToolHandler cfg t lg amb fullTask cwd s)) jobId = Some cl
         \<and> cl_timerArmed cl
         \<and> 0 < cl_timeoutMs cl
         \<and> cl_timeoutMs cl = resolveJobTimeoutMs (DYNAMIC_MCP_JOB_TIMEOUT_MS amb)
         \<and> (\<forall>v n. DYNAMIC_MCP_JOB_TIMEOUT_MS amb = Some v \<and> parseInt10 v = Num n \<and> n \<le> 0
               \<longrightarrow> cl_timeoutMs cl = 1200000)
         \<and> (\<forall>i. DYNAMIC_MCP_JOB_TIMEOUT_MS amb = Some (js (string_of_int i)) \<and> i \<le> 0
               \<longrightarrow> cl_timeoutMs cl = 1200000))"
proof -
  let ?T = "resolveJobTimeoutMs (DYNAMIC_MCP_JOB_TIMEOUT_MS amb)"
  let ?cl = "\<lparr>cl_toolName = tName, cl_timeoutMs = ?T, cl_logger = lg, cl_timerArmed = (0 < ?T)\<rparr>"
  have pos: "0 < ?T" by (rule resolveJobTimeoutMs_positive)
  have z1: "\<forall>v n. DYNAMIC_MCP_JOB_TIMEOUT_MS amb = Some v \<and> parseInt10 v = Num n \<and> n \<le> 0
               \<longrightarrow> ?T = 1200000"
    using resolveJobTimeoutMs_nonpositive by auto
  have z2: "\<forall>i. DYNAMIC_MCP_JOB_TIMEOUT_MS amb = Some (js (string_of_int i)) \<and> i \<le> 0
               \<longrightarrow> ?T = 1200000"
    using resolveJobTimeoutMs_nonpositive_numeral by auto
  have a: "\<forall>cc. CLI_CONFIG mdl = Some cc \<longrightarrow>
      (\<exists>jobId cl.
           fst (startTaskAsync amb mdl mId task cwd tName lg s) = Inr jobId
         \<and> closures (snd (startTaskAsync amb mdl mId task cwd tName lg s)) jobId = Some cl
         \<and> cl_timerArmed cl
         \<and> 0 < cl_timeoutMs cl
         \<and> cl_timeoutMs cl = ?T
         \<and> (\<forall>v n. DYNAMIC_MCP_JOB_TIMEOUT_MS amb = Some v \<and> parseInt10 v = Num n \<and> n \<le> 0
               \<longrightarrow> cl_timeoutMs cl = 1200000)
         \<and> (\<forall>i. DYNAMIC_MCP_JOB_TIMEOUT_MS amb = Some (js (string_of_int i)) \<and> i \<le> 0
               \<longrightarrow> cl_timeoutMs cl = 1200000))"
  proof (intro allI impI)
    fix cc
    assume cc: "CLI_CONFIG mdl = Some cc"
    have 1: "fst (startTaskAsync amb mdl mId task cwd tName lg s) = Inr (new_id amb s)"
      by (rule startTaskAsync_effect(3) [OF cc])
    have 2: "closures (snd (startTaskAsync amb mdl mId task cwd tName lg s)) (new_id amb s)
               = Some ?cl"
      by (simp add: startTaskAsync_effect(4) [OF cc])
    from 1 2 pos z1 z2
    show "\<exists>jobId cl.
           fst (startTaskAsync amb mdl mId task cwd tName lg s) = Inr jobId
         \<and> closures (snd (startTaskAsync amb mdl mId task cwd tName lg s)) jobId = Some cl
         \<and> cl_timerArmed cl
         \<and> 0 < cl_timeoutMs cl
         \<and> cl_timeoutMs cl = ?T
         \<and> (\<forall>v n. DYNAMIC_MCP_JOB_TIMEOUT_MS amb = Some v \<and> parseInt10 v = Num n \<and> n \<le> 0
               \<longrightarrow> cl_timeoutMs cl = 1200000)
         \<and> (\<forall>i. DYNAMIC_MCP_JOB_TIMEOUT_MS amb = Some (js (string_of_int i)) \<and> i \<le> 0
               \<longrightarrow> cl_timeoutMs cl = 1200000)"
      by (intro exI [of _ "new_id amb s"] exI [of _ ?cl]) simp
  qed
  let ?cl' = "\<lparr>cl_toolName = name t, cl_timeoutMs = ?T, cl_logger = lg, cl_timerArmed = (0 < ?T)\<rparr>"
  obtain r msg where r: "fst (asyncToolHandler cfg t lg amb fullTask cwd s) = Inr r"
      "structuredContent r = JobHandleContent (new_id amb s) Running msg"
    using asyncToolHandler_effect(4) [of cfg t lg amb fullTask cwd s] by blast
  have 3: "closures (snd (asyncToolHandler cfg t lg amb fullTask cwd s)) (new_id amb s)
             = Some ?cl'"
    by (simp add: asyncToolHandler_effect(3))
  from r 3 pos z1 z2
  have b: "\<exists>jobId cl r msg.
           fst (asyncToolHandler cfg t lg amb fullTask cwd s) = Inr r
         \<and> structuredContent r = JobHandleContent jobId Running msg
         \<and> closures (snd (asyncToolHandler cfg t lg amb fullTask cwd s)) jobId = Some cl
         \<and> cl_timerArmed cl
         \<and> 0 < cl_timeoutMs cl
         \<and> cl_timeoutMs cl = ?T
         \<and> (\<forall>v n. DYNAMIC_MCP_JOB_TIMEOUT_MS amb = Some v \<and> parseInt10 v = Num n \<and> n \<le> 0
               \<longrightarrow> cl_timeoutMs cl = 1200000)
         \<and> (\<forall>i. DYNAMIC_MCP_JOB_TIMEOUT_MS amb = Some (js (string_of_int i)) \<and> i \<le> 0
               \<longrightarrow> cl_timeoutMs cl = 1200000)"
    by (intro exI [of _ "new_id amb s"] exI [of _ ?cl'] exI [of _ r] exI [of _ msg]) simp
  from a b show ?thesis by (rule conjI)
qed

theorem timeout_timer_attached_for_every_override_witness:
  "CLI_CONFIG ''gemini'' = Some \<lparr>command = ''gemini'', baseArgs = [''-y'', ''-p'']\<rparr>
   \<and> DYNAMIC_MCP_JOB_TIMEOUT_MS demo_amb = Some (js ''0'')
   \<and> parseInt10 (js ''0'') = Num 0
   \<and> (\<exists>jobId cl.
           fst (startTaskAsync demo_amb ''gemini'' None ''task'' None ''review'' None
                  initial_state) = Inr jobId
         \<and> closures (snd (startTaskAsync demo_amb ''gemini'' None ''task'' None ''review'' None
                  initial_state)) jobId = Some cl
         \<and> cl_timerArmed cl
         \<and> 0 < cl_timeoutMs cl
         \<and> cl_timeoutMs cl = 1200000)
   \<and> (\<exists>jobId cl r msg.
           fst (asyncToolHandler demo_cfg demo_tool None demo_amb ''task'' None initial_state)
             = Inr r
         \<and> structuredContent r = JobHandleContent jobId Running msg
         \<and> closures (snd (asyncToolHandler demo_cfg demo_tool None demo_amb ''task'' None
                  initial_state)) jobId = Some cl
         \<and> cl_timerArmed cl
         \<and> 0 < cl_timeoutMs cl
         \<and> cl_timeoutMs cl = 1200000)"
proof -
  have cc: "CLI_CONFIG ''gemini'' = Some \<lparr>command = ''gemini'', baseArgs = [''-y'', ''-p'']\<rparr>"
    by (simp add: CLI_CONFIG_def)
  have v: "DYNAMIC_MCP_JOB_TIMEOUT_MS demo_amb = Some (js ''0'')" by (simp add: demo_amb_def)
  have n: "parseInt10 (js ''0'') = Num 0" by (simp add: parse_eval)
  note T = timeout_timer_attached_for_every_override [where mdl = "''gemini''"
      and amb = demo_amb and mId = None and task = "''task''" and cwd = None
      and tName = "''review''" and lg = None and s = initial_state and cfg = demo_cfg
      and t = demo_tool and fullTask = "''task''"]
  from T [THEN conjunct1, rule_format, OF cc]
  obtain jobId cl where
    h: "fst (startTaskAsync demo_amb ''gemini'' None ''task'' None ''review'' None
                  initial_state) = Inr jobId"
       "closures (snd (startTaskAsync demo_amb ''gemini'' None ''task'' None ''review'' None
                  initial_state)) jobId = Some cl"
       "cl_timerArmed cl" "0 < cl_timeoutMs cl"
       "\<forall>v n. DYNAMIC_MCP_JOB_TIMEOUT_MS demo_amb = Some v \<and> parseInt10 v = Num n \<and> n \<le> 0
               \<longrightarrow> cl_timeoutMs cl = 1200000"
    by blast
  from h(5) v n have "cl_timeoutMs cl = 1200000" by simp
  with h(1-4) have a: "\<exists>jobId cl.
           fst (startTaskAsync demo_amb ''gemini'' None ''task'' None ''review'' None
                  initial_state) = Inr jobId
         \<and> closures (snd (startTaskAsync demo_amb ''gemini'' None ''task'' None ''review'' None
                  initial_state)) jobId = Some cl
         \<and> cl_timerArmed cl
         \<and> 0 < cl_timeoutMs cl
         \<and> cl_timeoutMs cl = 1200000"
    by blast
  from T [THEN conjunct2]
  obtain jobId' cl' r msg where
    k: "fst (asyncToolHandler demo_cfg demo_tool None demo_amb ''task'' None initial_state)
             = Inr r"
       "structuredContent r = JobHandleContent jobId' Running msg"
       "closures (snd (asyncToolHandler demo_cfg demo_tool None demo_amb ''task'' None
                  initial_state)) jobId' = Some cl'"
       "cl_timerArmed cl'" "0 < cl_timeoutMs cl'"
       "\<forall>v n. DYNAMIC_MCP_JOB_TIMEOUT_MS demo_amb = Some v \<and> parseInt10 v = Num n \<and> n \<le> 0
               \<longrightarrow> cl_timeoutMs cl' = 1200000"
    by blast
  from k(6) v n have "cl_timeoutMs cl' = 1200000" by simp
  with k(1-5) have b: "\<exists>jobId cl r msg.
           fst (asyncToolHandler demo_cfg demo_tool None demo_amb ''task'' None initial_state)
             = Inr r
         \<and> structuredContent r = JobHandleContent jobId Running msg
         \<and> closures (snd (asyncToolHandler demo_cfg demo_tool None demo_amb ''task'' None
                  initial_state)) jobId = Some cl
         \<and> cl_timerArmed cl
         \<and> 0 < cl_timeoutMs cl
         \<and> cl_timeoutMs cl = 1200000"
    by blast
  from cc v n a b show ?thesis by (intro conjI)
qed

section \<open>The process runner\<close>

text \<open>
  Claim C6 says that \<open>executeTask\<close> resolves to a result for every input. It fails for
  a model that is no key of \<open>CLI_CONFIG\<close>: the look-up comes before the \<open>try\<close>.
\<close>

theorem executeTask_unknown_model_raises:
  "executeTask demo_exec demo_amb ''gpt'' None ''task'' None = Inl TypeError"
  by (simp add: executeTask_def CLI_CONFIG_def)

text \<open>
  Claim C6, amended. For every model that is a key of \<open>CLI_CONFIG\<close>, and so for every
  model that the configuration schema admits, and for every model id, task and working
  directory, \<open>executeTask\<close> returns a result: when \<open>execa\<close> rejects, the result is
  \<open>{exitCode: -1, stdout: "", stderr: <message>}\<close>; when it resolves, a missing exit
  code, stdout or stderr is -1, the empty string and the empty string.
\<close>

theorem executeTask_always_task_result:
  assumes "CLI_CONFIG mdl = Some cc"
  shows "\<exists>res. executeTask exec amb mdl mId task cwd = Inr res
         \<and> (\<forall>message.
               exec (command cc) (spawnArgs cc mId task) (spawnCwd cwd amb) = Rejected message
               \<longrightarrow> res = \<lparr>exitCode = - 1, stdout = [], stderr = message\<rparr>)
         \<and> (\<forall>ec out err.
               exec (command cc) (spawnArgs cc mId task) (spawnCwd cwd amb) = Resolved ec out err
               \<longrightarrow> res = \<lparr>exitCode = (case ec of None \<Rightarrow> - 1 | Some c \<Rightarrow> c),
                          stdout = (case out of None \<Rightarrow> [] | Some x \<Rightarrow> x),
                          stderr = (case err of None \<Rightarrow> [] | Some x \<Rightarrow> x)\<rparr>)
         \<and> (\<forall>m. \<exists>res'. executeTask exec amb (model_key m) mId task cwd = Inr res')"
proof -
  have "\<forall>m. \<exists>res'. executeTask exec amb (model_key m) mId task cwd = Inr res'"
    using executeTask_result CLI_CONFIG_model_key by metis
  then show ?thesis
    by (simp add: executeTask_result [OF assms] settled_result_def nullish_def)
qed

theorem executeTask_always_task_result_witness:
  "CLI_CONFIG ''claude'' =
     Some \<lparr>command = ''claude'', baseArgs = [''--dangerously-skip-permissions'', ''-p'']\<rparr>
   \<and> executeTask demo_throw demo_amb ''claude'' None ''task'' None =
       Inr \<lparr>exitCode = - 1, stdout = [], stderr = ''spawn claude ENOENT''\<rparr>
   \<and> CLI_CONFIG ''gemini'' = Some \<lparr>command = ''gemini'', baseArgs = [''-y'', ''-p'']\<rparr>
   \<and> executeTask demo_throw demo_amb ''gemini'' None ''task'' None =
       Inr \<lparr>exitCode = - 1, stdout = [], stderr = ''killed''\<rparr>"
proof -
  have c1: "CLI_CONFIG ''claude'' =
     Some \<lparr>command = ''claude'', baseArgs = [''--dangerously-skip-permissions'', ''-p'']\<rparr>"
    by (simp add: CLI_CONFIG_def)
  have c2: "CLI_CONFIG ''gemini'' = Some \<lparr>command = ''gemini'', baseArgs = [''-y'', ''-p'']\<rparr>"
    by (simp add: CLI_CONFIG_def)
  from executeTask_always_task_result [OF c1, of demo_throw demo_amb None "''task''" None]
  have r1: "executeTask demo_throw demo_amb ''claude'' None ''task'' None =
       Inr \<lparr>exitCode = - 1, stdout = [], stderr = ''spawn claude ENOENT''\<rparr>"
    by (auto simp add: demo_throw_def)
  from executeTask_always_task_result [OF c2, of demo_throw demo_amb None "''task''" None]
  have r2: "executeTask demo_throw demo_amb ''gemini'' None ''task'' None =
       Inr \<lparr>exitCode = - 1, stdout = [], stderr = ''killed''\<rparr>"
    by (auto simp add: demo_throw_def)
  from c1 r1 c2 r2 show ?thesis by (intro conjI)
qed

section \<open>The status query\<close>

text \<open>
  Claim C7. The handler of \<open>check-job-status\<close> is a total function to a response. For
  an identifier that is not in the registry the response has the status failed, the error
  text \<open>Job not found: <jobId>\<close> and the error mark. For an identifier in the registry
  the structured content is the snapshot of the job. The handler leaves the registry as
  it is, and an identifier that no call of the run was handed is not in the registry.
\<close>

theorem checkJobStatus_not_found_or_snapshot:
  "(jobs s k = None \<longrightarrow>
      fst (checkJobStatus lg k s) =
        \<lparr>content = ''Error: Job not found: '' @ k,
         structuredContent = JobNotFoundContent k Failed (''Job not found: '' @ k),
         isError = True\<rparr>)
   \<and> (\<forall>j. jobs s k = Some j \<longrightarrow>
         structuredContent (fst (checkJobStatus lg k s)) =
           JobSnapshotContent k (status j) (toolName j) (startedAt j) (completedAt j) (result j)
         \<and> isError (fst (checkJobStatus lg k s)) = (status j = Failed))
   \<and> jobs (snd (checkJobStatus lg k s)) = jobs s
   \<and> (k \<notin> set (created_ids initial_state es) \<longrightarrow> jobs (run initial_state es) k = None)"
proof -
  have "dom (jobs (run initial_state es)) = set (created_ids initial_state es)"
    using dom_jobs_run [of initial_state es] by (simp add: initial_state_def)
  then have d: "k \<notin> set (created_ids initial_state es) \<longrightarrow>
                  jobs (run initial_state es) k = None"
    by blast
  have a: "jobs s k = None \<longrightarrow>
      fst (checkJobStatus lg k s) =
        \<lparr>content = ''Error: Job not found: '' @ k,
         structuredContent = JobNotFoundContent k Failed (''Job not found: '' @ k),
         isError = True\<rparr>"
    by (simp add: checkJobStatus_def Let_def)
  have b: "\<forall>j. jobs s k = Some j \<longrightarrow>
         structuredContent (fst (checkJobStatus lg k s)) =
           JobSnapshotContent k (status j) (toolName j) (startedAt j) (completedAt j) (result j)
         \<and> isError (fst (checkJobStatus lg k s)) = (status j = Failed)"
    by (simp add: checkJobStatus_def Let_def)
  have c: "jobs (snd (checkJobStatus lg k s)) = jobs s"
    by (simp add: checkJobStatus_effect)
  from a b c d show ?thesis by (intro conjI)
qed

theorem checkJobStatus_not_found_or_snapshot_witness:
  "jobs initial_state ''job_9_9'' = None
   \<and> fst (checkJobStatus None ''job_9_9'' initial_state) =
        \<lparr>content = ''Error: Job not found: job_9_9'',
         structuredContent = JobNotFoundContent ''job_9_9'' Failed ''Job not found: job_9_9'',
         isError = True\<rparr>
   \<and> jobs (run initial_state [demo_call, EvTimeout ''job_5_1'' ''T1'']) ''job_5_1''
       = Some demo_timed_out
   \<and> structuredContent (fst (checkJobStatus None ''job_5_1''
         (run initial_state [demo_call, EvTimeout ''job_5_1'' ''T1'']))) =
       JobSnapshotContent ''job_5_1'' Failed ''review'' ''T0'' (Some ''T1'')
         (Some \<lparr>exitCode = - 1, stdout = [], stderr = ''Timed out after 1200000ms''\<rparr>)
   \<and> isError (fst (checkJobStatus None ''job_5_1''
         (run initial_state [demo_call, EvTimeout ''job_5_1'' ''T1''])))
   \<and> ''job_9_9'' \<notin> set (created_ids initial_state [demo_call])
   \<and> jobs (run initial_state [demo_call]) ''job_9_9'' = None"
proof -
  let ?s = "run initial_state [demo_call, EvTimeout ''job_5_1'' ''T1'']"
  note T0 = checkJobStatus_not_found_or_snapshot [of initial_state "''job_9_9''" None "[demo_call]"]
  note T1 = checkJobStatus_not_found_or_snapshot [of ?s "''job_5_1''" None "[]"]
  have a: "jobs initial_state ''job_9_9'' = None" by (simp add: initial_state_def)
  have b: "fst (checkJobStatus None ''job_9_9'' initial_state) =
        \<lparr>content = ''Error: Job not found: job_9_9'',
         structuredContent = JobNotFoundContent ''job_9_9'' Failed ''Job not found: job_9_9'',
         isError = True\<rparr>"
    using T0 [THEN conjunct1, rule_format, OF a] by simp
  have c: "jobs ?s ''job_5_1'' = Some demo_timed_out"
    using demo_state2 by (simp add: demo_timed_out_def)
  note T1c = T1 [THEN conjunct2, THEN conjunct1, rule_format, OF c]
  have d: "structuredContent (fst (checkJobStatus None ''job_5_1'' ?s)) =
       JobSnapshotContent ''job_5_1'' Failed ''review'' ''T0'' (Some ''T1'')
         (Some \<lparr>exitCode = - 1, stdout = [], stderr = ''Timed out after 1200000ms''\<rparr>)"
    using T1c [THEN conjunct1] by (simp add: demo_timed_out_def)
  have e: "isError (fst (checkJobStatus None ''job_5_1'' ?s))"
    using T1c [THEN conjunct2] by (simp add: demo_timed_out_def)
  have f: "''job_9_9'' \<notin> set (created_ids initial_state [demo_call])"
    using demo_id
    by (simp add: demo_call_def registeredHandler_cases resolveToolAsyncFlag_def demo_tool_def
        asyncToolHandler_def startTaskAsync_def generateJobId_def new_id_def Let_def
        CLI_CONFIG_def logger_log_def demo_cfg_def split: prod.splits)
  have g: "jobs (run initial_state [demo_call]) ''job_9_9'' = None"
    using T0 [THEN conjunct2, THEN conjunct2, THEN conjunct2, rule_format, OF f] .
  from a b c d e f g show ?thesis by (intro conjI)
qed

section \<open>Result and status\<close>

text \<open>
  Claim C8. For every job in the registry of a state that a run reaches from the start,
  through tool calls, status queries, timeouts and subprocesses that settle, the result is
  \<open>null\<close> exactly when the status is running, and a completed or failed job has a result.
\<close>

theorem result_null_iff_running:
  assumes "jobs (run initial_state es) k = Some j"
  shows "(result j = None) = (status j = Running)
       \<and> (status j = Completed \<or> status j = Failed \<longrightarrow> (\<exists>res. result j = Some res))"
proof -
  have "result_inv (run initial_state es)"
    using reachable_inv_run [OF reachable_inv_initial, of es] by (simp add: reachable_inv_def)
  with assms have "(result j = None) = (status j = Running)"
    unfolding result_inv_def by blast
  then show ?thesis by auto
qed

theorem result_null_iff_running_witness:
  "jobs (run initial_state [demo_call]) ''job_5_1'' =
     Some \<lparr>status = Running, toolName = ''review'', startedAt = ''T0'', result = None,
           timeoutMs = 1200000, completedAt = None, timedOut = None\<rparr>
   \<and> jobs (run initial_state [demo_call, EvTimeout ''job_5_1'' ''T1'']) ''job_5_1''
       = Some demo_timed_out
   \<and> status demo_timed_out = Failed
   \<and> (\<exists>res. result demo_timed_out = Some res)"
proof -
  have a: "jobs (run initial_state [demo_call]) ''job_5_1'' =
     Some \<lparr>status = Running, toolName = ''review'', startedAt = ''T0'', result = None,
           timeoutMs = 1200000, completedAt = None, timedOut = None\<rparr>"
    using demo_state1(1) by simp
  have c: "jobs (run initial_state [demo_call, EvTimeout ''job_5_1'' ''T1'']) ''job_5_1''
       = Some demo_timed_out"
    using demo_state2 by (simp add: demo_timed_out_def)
  have t: "status demo_timed_out = Failed" by (simp add: demo_timed_out_def)
  from result_null_iff_running [OF c, THEN conjunct2] t
  have "\<exists>res. result demo_timed_out = Some res" by simp
  with a c t show ?thesis by (intro conjI)
qed

section \<open>Job identifiers\<close>

text \<open>
  Claim C9. The identifiers handed out during a run, from the start or from any state,
  are pairwise distinct, and two calls of \<open>generateJobId\<close> one after the other give
  different identifiers, also at the same \<open>Date.now()\<close>.
\<close>

theorem job_ids_distinct:
  "distinct (created_ids initial_state es)
   \<and> distinct (created_ids s es)
   \<and> fst (generateJobId amb s) \<noteq> fst (generateJobId amb' (snd (generateJobId amb s)))"
proof -
  have "id_counter (new_id amb s) \<noteq> id_counter (new_id amb' (snd (generateJobId amb s)))"
    by (simp add: id_counter_new_id generateJobId_def Let_def)
  then have "new_id amb s \<noteq> new_id amb' (snd (generateJobId amb s))" by auto
  then show ?thesis by (simp add: created_ids_distinct new_id_def)
qed

section \<open>The synchronous path and the registry\<close>

text \<open>
  Claim C10. The synchronous handler leaves the registry as it is; \<open>executeTask\<close> has no
  access to the state at all. A tool call whose resolved flag is false leaves the registry
  unchanged and hands out no identifier; one whose flag is true adds exactly the new job.
  Among all events, only a tool call with a true flag changes the set of identifiers in
  the registry.
\<close>

theorem sync_invocation_frames_registry:
  "jobs (snd (syncToolHandler exec cfg t lg amb fullTask cwd s)) = jobs s
   \<and> (\<not> resolveToolAsyncFlag t serverAsync \<longrightarrow>
        jobs (step s (EvToolCall exec cfg serverAsync t lg amb fullTask cwd)) = jobs s
        \<and> handed_jobId s (EvToolCall exec cfg serverAsync t lg amb fullTask cwd) = [])
   \<and> (resolveToolAsyncFlag t serverAsync \<longrightarrow>
        jobs (step s (EvToolCall exec cfg serverAsync t lg amb fullTask cwd)) =
          (jobs s)(fst (generateJobId amb s) \<mapsto> new_job amb (name t))
        \<and> handed_jobId s (EvToolCall exec cfg serverAsync t lg amb fullTask cwd) =
            [fst (generateJobId amb s)])
   \<and> (\<forall>e. dom (jobs (step s e)) \<noteq> dom (jobs s) \<longrightarrow>
          (\<exists>exec' cfg' serverAsync' t' lg' amb' fullTask' cwd'.
             e = EvToolCall exec' cfg' serverAsync' t' lg' amb' fullTask' cwd'
             \<and> resolveToolAsyncFlag t' serverAsync'))"
proof -
  have a: "jobs (snd (syncToolHandler exec cfg t lg amb fullTask cwd s)) = jobs s"
    by (simp add: syncToolHandler_effect)
  have b: "\<not> resolveToolAsyncFlag t serverAsync \<longrightarrow>
        jobs (step s (EvToolCall exec cfg serverAsync t lg amb fullTask cwd)) = jobs s
        \<and> handed_jobId s (EvToolCall exec cfg serverAsync t lg amb fullTask cwd) = []"
    by (simp add: registeredHandler_cases syncToolHandler_effect syncToolHandler_def Let_def
        split: sum.splits)
  have c: "resolveToolAsyncFlag t serverAsync \<longrightarrow>
        jobs (step s (EvToolCall exec cfg serverAsync t lg amb fullTask cwd)) =
          (jobs s)(fst (generateJobId amb s) \<mapsto> new_job amb (name t))
        \<and> handed_jobId s (EvToolCall exec cfg serverAsync t lg amb fullTask cwd) =
            [fst (generateJobId amb s)]"
  proof
    assume f: "resolveToolAsyncFlag t serverAsync"
    obtain r msg where "fst (asyncToolHandler cfg t lg amb fullTask cwd s) = Inr r"
      and "structuredContent r = JobHandleContent (new_id amb s) Running msg"
      using asyncToolHandler_effect(4) [of cfg t lg amb fullTask cwd s] by blast
    with f show "jobs (step s (EvToolCall exec cfg serverAsync t lg amb fullTask cwd)) =
          (jobs s)(fst (generateJobId amb s) \<mapsto> new_job amb (name t))
        \<and> handed_jobId s (EvToolCall exec cfg serverAsync t lg amb fullTask cwd) =
            [fst (generateJobId amb s)]"
      by (simp add: registeredHandler_cases asyncToolHandler_effect new_id_def)
  qed
  have d: "\<forall>e. dom (jobs (step s e)) \<noteq> dom (jobs s) \<longrightarrow>
          (\<exists>exec' cfg' serverAsync' t' lg' amb' fullTask' cwd'.
             e = EvToolCall exec' cfg' serverAsync' t' lg' amb' fullTask' cwd'
             \<and> resolveToolAsyncFlag t' serverAsync')"
  proof (intro allI impI)
    fix e
    assume h: "dom (jobs (step s e)) \<noteq> dom (jobs s)"
    with step_handed [of s e] have ne: "handed_jobId s e \<noteq> []" by auto
    then obtain exec' cfg' serverAsync' t' lg' amb' fullTask' cwd'
      where e: "e = EvToolCall exec' cfg' serverAsync' t' lg' amb' fullTask' cwd'"
      by (cases e) auto
    have "resolveToolAsyncFlag t' serverAsync'"
    proof (rule ccontr)
      assume "\<not> resolveToolAsyncFlag t' serverAsync'"
      then have "jobs (step s e) = jobs s"
        using e by (simp add: registeredHandler_cases syncToolHandler_effect)
      with h show False by simp
    qed
    with e show "\<exists>exec' cfg' serverAsync' t' lg' amb' fullTask' cwd'.
             e = EvToolCall exec' cfg' serverAsync' t' lg' amb' fullTask' cwd'
             \<and> resolveToolAsyncFlag t' serverAsync'"
      by blast
  qed
  from a b c d show ?thesis by (intro conjI)
qed

theorem sync_invocation_frames_registry_witness:
  "\<not> resolveToolAsyncFlag demo_sync_tool False
   \<and> jobs (step (run initial_state [demo_call]) demo_sync_call)
       = jobs (run initial_state [demo_call])
   \<and> handed_jobId (run initial_state [demo_call]) demo_sync_call = []
   \<and> resolveToolAsyncFlag demo_tool False
   \<and> jobs (step initial_state demo_call)
       = (jobs initial_state)(''job_5_1'' \<mapsto> new_job demo_amb ''review'')
   \<and> handed_jobId initial_state demo_call = [''job_5_1'']
   \<and> dom (jobs (step initial_state demo_call)) \<noteq> dom (jobs initial_state)
   \<and> (\<exists>exec' cfg' serverAsync' t' lg' amb' fullTask' cwd'.
         demo_call = EvToolCall exec' cfg' serverAsync' t' lg' amb' fullTask' cwd'
         \<and> resolveToolAsyncFlag t' serverAsync')"
proof -
  have f1: "\<not> resolveToolAsyncFlag demo_sync_tool False"
    by (simp add: resolveToolAsyncFlag_def demo_sync_tool_def)
  have f2: "resolveToolAsyncFlag demo_tool False"
    by (simp add: resolveToolAsyncFlag_def demo_tool_def)
  have id: "fst (generateJobId demo_amb initial_state) = ''job_5_1''"
    using demo_id by (simp add: new_id_def)
  note T1 = sync_invocation_frames_registry [of demo_exec demo_cfg demo_sync_tool None demo_amb
      "''task''" None "run initial_state [demo_call]" False,
      THEN conjunct2, THEN conjunct1, rule_format, OF f1]
  note T2 = sync_invocation_frames_registry [of demo_exec demo_cfg demo_tool None demo_amb
      "''task''" None initial_state False]
  note T2a = T2 [THEN conjunct2, THEN conjunct2, THEN conjunct1, rule_format, OF f2]
  have a: "jobs (step (run initial_state [demo_call]) demo_sync_call)
       = jobs (run initial_state [demo_call])"
    using T1 [THEN conjunct1] by (simp only: demo_sync_call_def)
  have b: "handed_jobId (run initial_state [demo_call]) demo_sync_call = []"
    using T1 [THEN conjunct2] by (simp only: demo_sync_call_def)
  have c: "jobs (step initial_state demo_call)
       = (jobs initial_state)(''job_5_1'' \<mapsto> new_job demo_amb ''review'')"
    using T2a [THEN conjunct1] id by (simp add: demo_call_def demo_tool_def)
  have d: "handed_jobId initial_state demo_call = [''job_5_1'']"
    using T2a [THEN conjunct2] id by (simp only: demo_call_def)
  have e: "dom (jobs (step initial_state demo_call)) \<noteq> dom (jobs initial_state)"
    by (simp add: c) (simp add: initial_state_def)
  note g = T2 [THEN conjunct2, THEN conjunct2, THEN conjunct2, rule_format, OF e]
  from f1 a b f2 c d e g show ?thesis by (intro conjI)
qed

end
